theory Spec2Isabelle
  imports
    Complex_Main
    "HOL-Library.Char_ord"
    "HOL-Library.List_Lexorder"
    "HOL-Library.Product_Lexorder"
begin

section \<open>The trademark XML loader (\<^verbatim>\<open>scripts/load_xml.py\<close>)\<close>

text \<open>
  A shallow embedding of the ingestion pipeline of \<^verbatim>\<open>load_xml.py\<close>: date parsing, the
  extraction of a case record from a \<^verbatim>\<open>case-file\<close> element, the deduplication of a
  batch, the upsert statement, the retry loop around it, and the per-file worker with the
  coordinator that adds up the workers' results.

  Conventions. A Python \<^verbatim>\<open>str\<close> is a \<^typ>\<open>string\<close>, one \<^typ>\<open>char\<close> per code point, so
  the model covers the strings over the code points 0 to 255. \<^verbatim>\<open>None\<close> is \<^term>\<open>None\<close>.
  An exception is a value of \<open>exn\<close>, and a function that can raise returns \<open>exn + 'a\<close>.
\<close>

subsection \<open>Exceptions\<close>

datatype exn =
    ValueError
  | ParseError
  | DeadlockDetected
  | LockNotAvailable
  | IndexError
  | OtherError string

subsection \<open>Dates\<close>

text \<open>
  A \<^verbatim>\<open>datetime.date\<close> is the triple (year, month, day). Python compares dates
  chronologically, which is the lexicographic order of the triples.
\<close>

type_synonym date = "nat \<times> nat \<times> nat"

definition is_leap :: "nat \<Rightarrow> bool" where
  "is_leap y = (y mod 4 = 0 \<and> (y mod 100 \<noteq> 0 \<or> y mod 400 = 0))"

definition days_in_month :: "nat \<Rightarrow> nat \<Rightarrow> nat" where
  "days_in_month y m =
     (if m = 2 then (if is_leap y then 29 else 28)
      else if m \<in> {4, 6, 9, 11} then 30 else 31)"

text \<open>The constructor \<^verbatim>\<open>datetime.date(year, month, day)\<close>, which checks its arguments.\<close>

definition datetime_date :: "nat \<Rightarrow> nat \<Rightarrow> nat \<Rightarrow> exn + date" where
  "datetime_date y m d =
     (if 1 \<le> y \<and> y \<le> 9999 \<and> 1 \<le> m \<and> m \<le> 12 \<and> 1 \<le> d \<and> d \<le> days_in_month y m
      then Inr (y, m, d) else Inl ValueError)"

subsection \<open>\<^verbatim>\<open>datetime.strptime(s, '%Y%m%d')\<close>\<close>

text \<open>
  The library turns the format into the regular expression
  \<^verbatim>\<open>(?P<Y>\d\d\d\d)(?P<m>1[0-2]|0[1-9]|[1-9])(?P<d>3[0-1]|[1-2]\d|0[1-9]|[1-9]| [1-9])\<close>,
  matches it at the start of the string, raises \<^verbatim>\<open>ValueError\<close> when it does not match
  or when text is left after the match, and builds the date from the three groups.
  Each group is modelled by the list of its matches in the order a backtracking matcher
  tries them: the value of the group and the rest of the string.
\<close>

definition is_digit :: "char \<Rightarrow> bool" where
  "is_digit c = (c \<in> set ''0123456789'')"

definition digit_val :: "char \<Rightarrow> nat" where
  "digit_val c = of_char c - 48"

fun match_Y :: "string \<Rightarrow> (nat \<times> string) list" where
  "match_Y (a # b # c # d # r) =
     (if is_digit a \<and> is_digit b \<and> is_digit c \<and> is_digit d
      then [(1000 * digit_val a + 100 * digit_val b + 10 * digit_val c + digit_val d, r)]
      else [])"
| "match_Y _ = []"

text \<open>
  One alternative of a group: two characters that satisfy \<open>P\<close>, or one character, with
  the number the group stands for.
\<close>

fun alt2 :: "(char \<Rightarrow> char \<Rightarrow> bool) \<Rightarrow> (char \<Rightarrow> char \<Rightarrow> nat) \<Rightarrow> string \<Rightarrow> (nat \<times> string) list" where
  "alt2 P f (a # b # r) = (if P a b then [(f a b, r)] else [])"
| "alt2 P f _ = []"

fun alt1 :: "(char \<Rightarrow> bool) \<Rightarrow> (char \<Rightarrow> nat) \<Rightarrow> string \<Rightarrow> (nat \<times> string) list" where
  "alt1 P f (a # r) = (if P a then [(f a, r)] else [])"
| "alt1 P f [] = []"

definition match_m :: "string \<Rightarrow> (nat \<times> string) list" where
  "match_m s =
       alt2 (\<lambda>a b. a = CHR ''1'' \<and> b \<in> set ''012'') (\<lambda>a b. 10 + digit_val b) s
     @ alt2 (\<lambda>a b. a = CHR ''0'' \<and> b \<in> set ''123456789'') (\<lambda>a b. digit_val b) s
     @ alt1 (\<lambda>a. a \<in> set ''123456789'') digit_val s"

definition match_d :: "string \<Rightarrow> (nat \<times> string) list" where
  "match_d s =
       alt2 (\<lambda>a b. a = CHR ''3'' \<and> b \<in> set ''01'') (\<lambda>a b. 30 + digit_val b) s
     @ alt2 (\<lambda>a b. a \<in> set ''12'' \<and> is_digit b) (\<lambda>a b. 10 * digit_val a + digit_val b) s
     @ alt2 (\<lambda>a b. a = CHR ''0'' \<and> b \<in> set ''123456789'') (\<lambda>a b. digit_val b) s
     @ alt1 (\<lambda>a. a \<in> set ''123456789'') digit_val s
     @ alt2 (\<lambda>a b. a = CHR '' '' \<and> b \<in> set ''123456789'') (\<lambda>a b. digit_val b) s"

text \<open>The first match of the whole expression, if there is one.\<close>

definition regex_Ymd :: "string \<Rightarrow> (nat \<times> nat \<times> nat \<times> string) option" where
  "regex_Ymd s =
     (case [(y, m, d, r3). (y, r1) \<leftarrow> match_Y s, (m, r2) \<leftarrow> match_m r1, (d, r3) \<leftarrow> match_d r2] of
        [] \<Rightarrow> None
      | x # _ \<Rightarrow> Some x)"

definition strptime_Ymd :: "string \<Rightarrow> exn + date" where
  "strptime_Ymd s =
     (case regex_Ymd s of
        None \<Rightarrow> Inl ValueError
      | Some (y, m, d, rest) \<Rightarrow> if rest \<noteq> [] then Inl ValueError else datetime_date y m d)"

subsection \<open>\<^verbatim>\<open>parse_date\<close>\<close>

text \<open>
  \<^verbatim>\<open>if not date_str or date_str == '0' or len(date_str) != 8: return None\<close>, then
  \<^verbatim>\<open>strptime\<close> under \<^verbatim>\<open>except ValueError: return None\<close>. Any other exception would
  leave the function, which is the \<open>Inl\<close> branch.
\<close>

definition parse_date :: "string option \<Rightarrow> exn + date option" where
  "parse_date date_str =
     (case date_str of
        None \<Rightarrow> Inr None
      | Some s \<Rightarrow>
          if s = [] \<or> s = ''0'' \<or> length s \<noteq> 8 then Inr None
          else (case strptime_Ymd s of
                  Inr d \<Rightarrow> Inr (Some d)
                | Inl e \<Rightarrow> if e = ValueError then Inr None else Inl e))"



subsection \<open>XML elements\<close>

text \<open>
  An \<^verbatim>\<open>ElementTree\<close> element: its tag, its text (or \<^verbatim>\<open>None\<close>) and its children.
  \<^verbatim>\<open>find(tag)\<close> is the first child with the tag, \<^verbatim>\<open>findall(tag)\<close> all of them in
  document order.
\<close>

datatype element = Element (elem_tag: string) (elem_text: "string option") (elem_children: "element list")

definition elem_find :: "element \<Rightarrow> string \<Rightarrow> element option" where
  "elem_find e t = List.find (\<lambda>c. elem_tag c = t) (elem_children e)"

definition elem_findall :: "element \<Rightarrow> string \<Rightarrow> element list" where
  "elem_findall e t = filter (\<lambda>c. elem_tag c = t) (elem_children e)"

text \<open>\<^verbatim>\<open>str.strip()\<close>: the white space among the code points below 256.\<close>

definition is_space :: "char \<Rightarrow> bool" where
  "is_space c = (of_char c \<in> {9, 10, 11, 12, 13, 28, 29, 30, 31, 32, 133, 160 :: nat})"

definition strip :: "string \<Rightarrow> string" where
  "strip s = rev (dropWhile is_space (rev (dropWhile is_space s)))"

definition get_text :: "element \<Rightarrow> string \<Rightarrow> string option" where
  "get_text e t =
     (case elem_find e t of
        None \<Rightarrow> None
      | Some child \<Rightarrow>
          (case elem_text child of
             None \<Rightarrow> None
           | Some txt \<Rightarrow> if txt \<noteq> [] then Some (strip txt) else None))"

text \<open>\<^verbatim>\<open>text == 'T' if text else False\<close>\<close>

definition get_bool :: "element \<Rightarrow> string \<Rightarrow> bool" where
  "get_bool e t =
     (case get_text e t of
        None \<Rightarrow> False
      | Some txt \<Rightarrow> if txt \<noteq> [] then txt = ''T'' else False)"

definition get_all_text :: "element \<Rightarrow> string \<Rightarrow> string list" where
  "get_all_text e t =
     concat (map (\<lambda>child. case elem_text child of
                             None \<Rightarrow> []
                           | Some txt \<Rightarrow> if txt \<noteq> [] then [strip txt] else [])
                 (elem_findall e t))"

subsection \<open>Case records\<close>

text \<open>
  A case record is the dict that \<^verbatim>\<open>parse_case_file\<close> builds. The three keys the
  deduplication and the sort read are typed fields (\<^verbatim>\<open>serial_number\<close> is always
  present, the two dates are a date or \<^verbatim>\<open>None\<close>); the owner and statement lists are
  fields too; \<open>attrs\<close> holds the other keys of the dict, which the upsert reads with
  \<^verbatim>\<open>r.get\<close>.
\<close>

datatype pyval =
    PNone
  | PStr string
  | PBool bool
  | PDate date
  | PStrs "string list"
  | PTime real

record owner =
  entry_number :: "string option"
  party_type :: "string option"
  party_name :: "string option"
  legal_entity_type :: "string option"
  address :: string
  city :: "string option"
  state :: "string option"
  country :: "string option"
  postcode :: "string option"
  dba_aka :: "string option"

record statement =
  type_code :: string
  stmt_text :: string

record case_record =
  serial_number :: string
  transaction_date :: "date option"
  status_date :: "date option"
  attrs :: "string \<rightharpoonup> pyval"
  owners :: "owner list"
  statements :: "statement list"

definition opt_date :: "date option \<Rightarrow> pyval" where
  "opt_date d = (case d of None \<Rightarrow> PNone | Some x \<Rightarrow> PDate x)"

definition opt_str :: "string option \<Rightarrow> pyval" where
  "opt_str s = (case s of None \<Rightarrow> PNone | Some x \<Rightarrow> PStr x)"

text \<open>\<^verbatim>\<open>r.get(key)\<close> and \<^verbatim>\<open>r.get(key, default)\<close>.\<close>

definition get :: "case_record \<Rightarrow> string \<Rightarrow> pyval" where
  "get r k = (case attrs r k of None \<Rightarrow> PNone | Some v \<Rightarrow> v)"

definition get_or :: "case_record \<Rightarrow> string \<Rightarrow> pyval \<Rightarrow> pyval" where
  "get_or r k d = (case attrs r k of None \<Rightarrow> d | Some v \<Rightarrow> v)"

subsection \<open>\<^verbatim>\<open>parse_case_file\<close>\<close>

definition and_then :: "exn + 'a \<Rightarrow> ('a \<Rightarrow> exn + 'b) \<Rightarrow> exn + 'b" where
  "and_then m f = (case m of Inl e \<Rightarrow> Inl e | Inr x \<Rightarrow> f x)"

text \<open>
  The assignments \<^verbatim>\<open>record[key] = value\<close> of one block, in the order of the source; a
  value is a computation that may raise, and the block raises what its first raising
  value raises.
\<close>

fun assignments :: "(string \<times> (exn + pyval)) list \<Rightarrow> exn + (string \<times> pyval) list" where
  "assignments [] = Inr []"
| "assignments ((k, m) # rest) =
     and_then m (\<lambda>v. and_then (assignments rest) (\<lambda>vs. Inr ((k, v) # vs)))"

definition text_item :: "element \<Rightarrow> string \<Rightarrow> exn + pyval" where
  "text_item e t = Inr (opt_str (get_text e t))"

definition bool_item :: "element \<Rightarrow> string \<Rightarrow> exn + pyval" where
  "bool_item e t = Inr (PBool (get_bool e t))"

definition date_item :: "element \<Rightarrow> string \<Rightarrow> exn + pyval" where
  "date_item e t = and_then (parse_date (get_text e t)) (\<lambda>d. Inr (opt_date d))"

text \<open>The block under \<^verbatim>\<open>if header is not None\<close>.\<close>

definition header_items :: "element \<Rightarrow> (string \<times> (exn + pyval)) list" where
  "header_items header =
     [(''mark_identification'', text_item header ''mark-identification''),
      (''mark_drawing_code'', text_item header ''mark-drawing-code''),
      (''standard_characters'', bool_item header ''standard-characters-claimed-in''),
      (''status_code'', text_item header ''status-code''),
      (''status_date'', date_item header ''status-date''),
      (''filing_date'', date_item header ''filing-date''),
      (''registration_date'', date_item header ''registration-date''),
      (''publication_date'', date_item header ''published-for-opposition-date''),
      (''abandonment_date'', date_item header ''abandonment-date''),
      (''cancellation_date'', date_item header ''cancellation-date''),
      (''renewal_date'', date_item header ''renewal-date''),
      (''cancellation_code'', text_item header ''cancellation-code''),
      (''is_trademark'', bool_item header ''trademark-in''),
      (''is_service_mark'', bool_item header ''service-mark-in''),
      (''is_collective_trademark'', bool_item header ''collective-trademark-in''),
      (''is_collective_service_mark'', bool_item header ''collective-service-mark-in''),
      (''is_collective_membership_mark'', bool_item header ''collective-membership-mark-in''),
      (''is_certification_mark'', bool_item header ''certification-mark-in''),
      (''is_supplemental_register'', bool_item header ''supplemental-register-in''),
      (''has_color'', bool_item header ''color-drawing-current-in''),
      (''is_3d'', bool_item header ''drawing-3d-current-in''),
      (''basis_use_in_commerce'', bool_item header ''use-application-currently-in''),
      (''basis_intent_to_use'', bool_item header ''intent-to-use-current-in''),
      (''basis_foreign_application'', bool_item header ''filing-basis-current-44d-in''),
      (''basis_foreign_registration'', bool_item header ''filing-basis-current-44e-in''),
      (''basis_international_registration'', bool_item header ''filing-basis-current-66a-in''),
      (''cancellation_pending'', bool_item header ''cancellation-pending-in''),
      (''opposition_pending'', bool_item header ''opposition-pending-in''),
      (''interference_pending'', bool_item header ''interference-pending-in''),
      (''concurrent_use_pending'', bool_item header ''concurrent-use-proceeding-in''),
      (''section_8_accepted'', bool_item header ''section-8-accepted-in''),
      (''section_15_acknowledged'', bool_item header ''section-15-acknowledged-in''),
      (''section_2f'', bool_item header ''section-2f-in''),
      (''attorney_name'', text_item header ''attorney-name''),
      (''attorney_docket_number'', text_item header ''attorney-docket-number''),
      (''domestic_representative'', text_item header ''domestic-representative-name'')]"

text \<open>
  The loop over the \<^verbatim>\<open>classification\<close> elements. Its state is the five variables
  \<^verbatim>\<open>intl_classes\<close>, \<^verbatim>\<open>us_classes\<close>, \<^verbatim>\<open>primary_class\<close>, \<^verbatim>\<open>first_use_anywhere\<close> and
  \<^verbatim>\<open>first_use_commerce\<close>; the last three are assigned only while they are \<^verbatim>\<open>None\<close>.
\<close>

type_synonym class_state = "string list \<times> string list \<times> string option \<times> date option \<times> date option"

fun classification_loop :: "element list \<Rightarrow> class_state \<Rightarrow> exn + class_state" where
  "classification_loop [] st = Inr st"
| "classification_loop (classification # rest) (intl_classes, us_classes, primary_class, fua, fuc) =
     (let intl_codes = get_all_text classification ''international-code'';
          us_codes = get_all_text classification ''us-code'';
          primary_class' = (if primary_class = None then get_text classification ''primary-code''
                            else primary_class)
      in and_then (if fua = None then parse_date (get_text classification ''first-use-anywhere-date'')
                   else Inr fua) (\<lambda>fua'.
         and_then (if fuc = None then parse_date (get_text classification ''first-use-in-commerce-date'')
                   else Inr fuc) (\<lambda>fuc'.
         classification_loop rest
           (intl_classes @ intl_codes, us_classes @ us_codes, primary_class', fua', fuc'))))"

definition parse_classifications :: "element \<Rightarrow> exn + class_state" where
  "parse_classifications case_file_elem =
     (case elem_find case_file_elem ''classifications'' of
        None \<Rightarrow> Inr ([], [], None, None, None)
      | Some classifications \<Rightarrow>
          classification_loop (elem_findall classifications ''classification'')
            ([], [], None, None, None))"

text \<open>
  \<^verbatim>\<open>list(set(xs)) if xs else None\<close>. Python leaves the order of the list open; the model
  lists each code once, in the order of first occurrence.
\<close>

definition list_set :: "string list \<Rightarrow> string list" where
  "list_set xs = rev (remdups (rev xs))"

definition codes_or_none :: "string list \<Rightarrow> pyval" where
  "codes_or_none xs = (if xs \<noteq> [] then PStrs (list_set xs) else PNone)"

definition classification_items :: "class_state \<Rightarrow> (string \<times> (exn + pyval)) list" where
  "classification_items st =
     (case st of (intl_classes, us_classes, primary_class, fua, fuc) \<Rightarrow>
        [(''international_classes'', Inr (codes_or_none intl_classes)),
         (''us_classes'', Inr (codes_or_none us_classes)),
         (''primary_class'', Inr (opt_str primary_class)),
         (''first_use_anywhere_date'', Inr (opt_date fua)),
         (''first_use_in_commerce_date'', Inr (opt_date fuc))])"

text \<open>Design search codes: every non-empty \<^verbatim>\<open>code\<close>, in order; \<^verbatim>\<open>None\<close> if there is none.\<close>

definition parse_design_codes :: "element \<Rightarrow> pyval" where
  "parse_design_codes case_file_elem =
     (let design_codes =
        (case elem_find case_file_elem ''design-searches'' of
           None \<Rightarrow> []
         | Some design_searches \<Rightarrow>
             concat (map (\<lambda>design_search.
                            case get_text design_search ''code'' of
                              None \<Rightarrow> []
                            | Some code \<Rightarrow> if code \<noteq> [] then [code] else [])
                         (elem_findall design_searches ''design-search'')))
      in if design_codes \<noteq> [] then PStrs design_codes else PNone)"

text \<open>\<^verbatim>\<open>sep.join(filter(None, parts))\<close>\<close>

fun join :: "string \<Rightarrow> string list \<Rightarrow> string" where
  "join sep [] = []"
| "join sep [x] = x"
| "join sep (x # y # ys) = x @ sep @ join sep (y # ys)"

definition truthy_texts :: "string option list \<Rightarrow> string list" where
  "truthy_texts parts =
     concat (map (\<lambda>p. case p of None \<Rightarrow> [] | Some s \<Rightarrow> if s \<noteq> [] then [s] else []) parts)"

definition parse_owner :: "element \<Rightarrow> owner" where
  "parse_owner e =
     \<lparr>entry_number = get_text e ''entry-number'',
      party_type = get_text e ''party-type'',
      party_name = get_text e ''party-name'',
      legal_entity_type = get_text e ''legal-entity-type-code'',
      address = join '' '' (truthy_texts [get_text e ''address-1'', get_text e ''address-2'']),
      city = get_text e ''city'',
      state = get_text e ''state'',
      country = get_text e ''country'',
      postcode = get_text e ''postcode'',
      dba_aka = get_text e ''dba-aka-text''\<rparr>"

definition parse_owners :: "element \<Rightarrow> owner list" where
  "parse_owners case_file_elem =
     (case elem_find case_file_elem ''case-file-owners'' of
        None \<Rightarrow> []
      | Some case_file_owners \<Rightarrow> map parse_owner (elem_findall case_file_owners ''case-file-owner''))"

text \<open>The first owner is copied into the record, under \<^verbatim>\<open>if owners\<close>.\<close>

definition owner_items :: "owner list \<Rightarrow> (string \<times> (exn + pyval)) list" where
  "owner_items os =
     (case os of
        [] \<Rightarrow> []
      | primary_owner # _ \<Rightarrow>
          [(''owner_name'', Inr (opt_str (party_name primary_owner))),
           (''owner_type'', Inr (opt_str (party_type primary_owner))),
           (''owner_legal_entity_type'', Inr (opt_str (legal_entity_type primary_owner))),
           (''owner_address'', Inr (PStr (address primary_owner))),
           (''owner_city'', Inr (opt_str (city primary_owner))),
           (''owner_state'', Inr (opt_str (state primary_owner))),
           (''owner_country'', Inr (opt_str (country primary_owner))),
           (''owner_postcode'', Inr (opt_str (postcode primary_owner)))])"

definition correspondent_items :: "element \<Rightarrow> (string \<times> (exn + pyval)) list" where
  "correspondent_items case_file_elem =
     (case elem_find case_file_elem ''correspondent'' of
        None \<Rightarrow> []
      | Some correspondent \<Rightarrow>
          [(''correspondent_address'',
            Inr (PStr (join [CHR 0x0A]
              (truthy_texts (map (get_text correspondent)
                 [''address-1'', ''address-2'', ''address-3'', ''address-4'', ''address-5''])))))])"

definition parse_statements :: "element \<Rightarrow> statement list" where
  "parse_statements case_file_elem =
     (case elem_find case_file_elem ''case-file-statements'' of
        None \<Rightarrow> []
      | Some case_file_statements \<Rightarrow>
          concat (map (\<lambda>stmt.
                         case (get_text stmt ''type-code'', get_text stmt ''text'') of
                           (Some tc, Some txt) \<Rightarrow>
                             if tc \<noteq> [] \<and> txt \<noteq> [] then [\<lparr>type_code = tc, stmt_text = txt\<rparr>] else []
                         | _ \<Rightarrow> [])
                      (elem_findall case_file_statements ''case-file-statement'')))"

definition ir_items :: "element \<Rightarrow> (string \<times> (exn + pyval)) list" where
  "ir_items case_file_elem =
     (case elem_find case_file_elem ''international-registration'' of
        None \<Rightarrow> []
      | Some ir \<Rightarrow>
          [(''ir_number'', text_item ir ''international-registration-number''),
           (''ir_registration_date'', date_item ir ''international-registration-date''),
           (''ir_status_code'', text_item ir ''international-status-code'')])"

text \<open>
  \<^verbatim>\<open>registration_number\<close>, with the placeholder \<^verbatim>\<open>0000000\<close> replaced by \<^verbatim>\<open>None\<close>.
\<close>

definition registration_number :: "element \<Rightarrow> string option" where
  "registration_number case_file_elem =
     (let rn = get_text case_file_elem ''registration-number''
      in if rn = Some ''0000000'' then None else rn)"

definition as_date :: "pyval option \<Rightarrow> date option" where
  "as_date v = (case v of Some (PDate d) \<Rightarrow> Some d | _ \<Rightarrow> None)"

text \<open>
  The function returns \<^verbatim>\<open>None\<close> for an element without a serial number, and the record
  otherwise. The blocks run in the order of the source.
\<close>

definition parse_case_file :: "element \<Rightarrow> exn + case_record option" where
  "parse_case_file case_file_elem =
     (case get_text case_file_elem ''serial-number'' of
        None \<Rightarrow> Inr None
      | Some serial \<Rightarrow>
          if serial = [] then Inr None
          else
            and_then (parse_date (get_text case_file_elem ''transaction-date'')) (\<lambda>td.
            and_then (assignments
                        (case elem_find case_file_elem ''case-file-header'' of
                           None \<Rightarrow> []
                         | Some header \<Rightarrow> header_items header)) (\<lambda>header_part.
            and_then (parse_classifications case_file_elem) (\<lambda>cls.
            and_then (assignments
                        (classification_items cls
                         @ [(''design_codes'', Inr (parse_design_codes case_file_elem))]
                         @ owner_items (parse_owners case_file_elem)
                         @ correspondent_items case_file_elem
                         @ ir_items case_file_elem)) (\<lambda>rest_part.
            let items = (''registration_number'', opt_str (registration_number case_file_elem))
                        # header_part @ rest_part
            in Inr (Some
                 \<lparr>serial_number = serial,
                  transaction_date = td,
                  status_date = as_date (map_of items ''status_date''),
                  attrs = map_of (filter (\<lambda>(k, v). k \<noteq> ''status_date'') items),
                  owners = parse_owners case_file_elem,
                  statements = parse_statements case_file_elem\<rparr>))))))"

subsection \<open>\<^verbatim>\<open>_deduplicate_records\<close>\<close>

text \<open>
  \<^verbatim>\<open>by_serial\<close> is a \<^verbatim>\<open>defaultdict(list)\<close>: an association list in the order of
  first insertion, which is the order \<^verbatim>\<open>by_serial.items()\<close> iterates in.
\<close>

fun append_entry ::
  "(string \<times> case_record list) list \<Rightarrow> string \<Rightarrow> case_record \<Rightarrow> (string \<times> case_record list) list" where
  "append_entry [] k r = [(k, [r])]"
| "append_entry ((k', es) # g) k r =
     (if k' = k then (k', es @ [r]) # g else (k', es) # append_entry g k r)"

definition group_by_serial :: "case_record list \<Rightarrow> (string \<times> case_record list) list" where
  "group_by_serial records = foldl (\<lambda>g r. append_entry g (serial_number r) r) [] records"

definition min_date :: date where
  "min_date = (1800, 1, 1)"

text \<open>\<^verbatim>\<open>(td or min_date, sd or min_date)\<close>; a date object is always true.\<close>

definition date_key :: "case_record \<Rightarrow> date \<times> date" where
  "date_key r =
     (case transaction_date r of None \<Rightarrow> min_date | Some td \<Rightarrow> td,
      case status_date r of None \<Rightarrow> min_date | Some sd \<Rightarrow> sd)"

text \<open>
  \<^verbatim>\<open>entries.sort(key=date_key, reverse=True)\<close>: the list is reversed, sorted by a stable
  ascending sort, and reversed again, so entries with equal keys keep their order.
\<close>

definition sort_reverse :: "('a \<Rightarrow> 'k::linorder) \<Rightarrow> 'a list \<Rightarrow> 'a list" where
  "sort_reverse f xs = rev (sort_key f (rev xs))"

text \<open>\<^verbatim>\<open>xs[0]\<close>, which raises \<^verbatim>\<open>IndexError\<close> on the empty list.\<close>

definition index0 :: "'a list \<Rightarrow> exn + 'a" where
  "index0 xs = (case xs of [] \<Rightarrow> Inl IndexError | x # _ \<Rightarrow> Inr x)"

definition newest :: "case_record list \<Rightarrow> exn + case_record" where
  "newest entries =
     (if length entries = 1 then index0 entries
      else index0 (sort_reverse date_key entries))"

fun keep_newest :: "(string \<times> case_record list) list \<Rightarrow> exn + case_record list" where
  "keep_newest [] = Inr []"
| "keep_newest ((serial, entries) # g) =
     (case newest entries of
        Inl e \<Rightarrow> Inl e
      | Inr r \<Rightarrow> (case keep_newest g of Inl e \<Rightarrow> Inl e | Inr rs \<Rightarrow> Inr (r # rs)))"

definition deduplicate_records :: "case_record list \<Rightarrow> exn + case_record list" where
  "deduplicate_records records = keep_newest (group_by_serial records)"

subsection \<open>The upsert statement\<close>

text \<open>
  The columns of \<^verbatim>\<open>INSERT INTO trademarks (...)\<close> after \<^verbatim>\<open>serial_number\<close> and before
  \<^verbatim>\<open>updated_at\<close>, in the statement's order.
\<close>

definition value_columns :: "string list" where
  "value_columns =
     [''registration_number'', ''transaction_date'', ''mark_identification'',
      ''mark_drawing_code'', ''standard_characters'', ''status_code'', ''status_date'',
      ''filing_date'', ''registration_date'', ''publication_date'', ''abandonment_date'',
      ''cancellation_date'', ''renewal_date'', ''cancellation_code'', ''is_trademark'',
      ''is_service_mark'', ''is_collective_trademark'', ''is_collective_service_mark'',
      ''is_collective_membership_mark'', ''is_certification_mark'',
      ''is_supplemental_register'', ''has_color'', ''is_3d'', ''basis_use_in_commerce'',
      ''basis_intent_to_use'', ''basis_foreign_application'', ''basis_foreign_registration'',
      ''basis_international_registration'', ''cancellation_pending'', ''opposition_pending'',
      ''interference_pending'', ''concurrent_use_pending'', ''section_8_accepted'',
      ''section_15_acknowledged'', ''section_2f'', ''attorney_name'',
      ''attorney_docket_number'', ''domestic_representative'', ''international_classes'',
      ''us_classes'', ''primary_class'', ''first_use_anywhere_date'',
      ''first_use_in_commerce_date'', ''design_codes'', ''owner_name'', ''owner_type'',
      ''owner_legal_entity_type'', ''owner_address'', ''owner_city'', ''owner_state'',
      ''owner_country'', ''owner_postcode'', ''correspondent_address'', ''ir_number'',
      ''ir_registration_date'', ''ir_status_code'']"

text \<open>
  The columns assigned from \<^verbatim>\<open>EXCLUDED\<close> by \<^verbatim>\<open>ON CONFLICT (serial_number) DO UPDATE SET\<close>,
  in the statement's order. The clause ends with \<^verbatim>\<open>updated_at = CURRENT_TIMESTAMP\<close>.
\<close>

definition set_columns :: "string list" where
  "set_columns =
     [''registration_number'', ''transaction_date'', ''mark_identification'',
      ''mark_drawing_code'', ''standard_characters'', ''status_code'', ''status_date'',
      ''filing_date'', ''registration_date'', ''publication_date'', ''abandonment_date'',
      ''cancellation_date'', ''renewal_date'', ''cancellation_code'', ''is_trademark'',
      ''is_service_mark'', ''is_collective_trademark'', ''is_collective_service_mark'',
      ''is_collective_membership_mark'', ''is_certification_mark'',
      ''is_supplemental_register'', ''has_color'', ''is_3d'', ''basis_use_in_commerce'',
      ''basis_intent_to_use'', ''basis_foreign_application'', ''basis_foreign_registration'',
      ''basis_international_registration'', ''cancellation_pending'', ''opposition_pending'',
      ''interference_pending'', ''concurrent_use_pending'', ''section_8_accepted'',
      ''section_15_acknowledged'', ''section_2f'', ''attorney_name'',
      ''attorney_docket_number'', ''domestic_representative'', ''international_classes'',
      ''us_classes'', ''primary_class'', ''first_use_anywhere_date'',
      ''first_use_in_commerce_date'', ''design_codes'', ''owner_name'', ''owner_type'',
      ''owner_legal_entity_type'', ''owner_address'', ''owner_city'', ''owner_state'',
      ''owner_country'', ''owner_postcode'', ''correspondent_address'', ''ir_number'',
      ''ir_registration_date'', ''ir_status_code'']"

text \<open>
  One element of \<^verbatim>\<open>trademark_values\<close>: the serial number, and the values of the other
  columns in the order of the tuple.
\<close>

definition trademark_tuple :: "case_record \<Rightarrow> string \<times> pyval list" where
  "trademark_tuple r =
     (serial_number r,
      [get r ''registration_number'',
       opt_date (transaction_date r),
       get r ''mark_identification'',
       get r ''mark_drawing_code'',
       get_or r ''standard_characters'' (PBool False),
       get r ''status_code'',
       opt_date (status_date r),
       get r ''filing_date'',
       get r ''registration_date'',
       get r ''publication_date'',
       get r ''abandonment_date'',
       get r ''cancellation_date'',
       get r ''renewal_date'',
       get r ''cancellation_code'',
       get_or r ''is_trademark'' (PBool False),
       get_or r ''is_service_mark'' (PBool False),
       get_or r ''is_collective_trademark'' (PBool False),
       get_or r ''is_collective_service_mark'' (PBool False),
       get_or r ''is_collective_membership_mark'' (PBool False),
       get_or r ''is_certification_mark'' (PBool False),
       get_or r ''is_supplemental_register'' (PBool False),
       get_or r ''has_color'' (PBool False),
       get_or r ''is_3d'' (PBool False),
       get_or r ''basis_use_in_commerce'' (PBool False),
       get_or r ''basis_intent_to_use'' (PBool False),
       get_or r ''basis_foreign_application'' (PBool False),
       get_or r ''basis_foreign_registration'' (PBool False),
       get_or r ''basis_international_registration'' (PBool False),
       get_or r ''cancellation_pending'' (PBool False),
       get_or r ''opposition_pending'' (PBool False),
       get_or r ''interference_pending'' (PBool False),
       get_or r ''concurrent_use_pending'' (PBool False),
       get_or r ''section_8_accepted'' (PBool False),
       get_or r ''section_15_acknowledged'' (PBool False),
       get_or r ''section_2f'' (PBool False),
       get r ''attorney_name'',
       get r ''attorney_docket_number'',
       get r ''domestic_representative'',
       get r ''international_classes'',
       get r ''us_classes'',
       get r ''primary_class'',
       get r ''first_use_anywhere_date'',
       get r ''first_use_in_commerce_date'',
       get r ''design_codes'',
       get r ''owner_name'',
       get r ''owner_type'',
       get r ''owner_legal_entity_type'',
       get r ''owner_address'',
       get r ''owner_city'',
       get r ''owner_state'',
       get r ''owner_country'',
       get r ''owner_postcode'',
       get r ''correspondent_address'',
       get r ''ir_number'',
       get r ''ir_registration_date'',
       get r ''ir_status_code''])"

definition trademark_values :: "case_record list \<Rightarrow> exn + (string \<times> pyval list) list" where
  "trademark_values records =
     (case deduplicate_records records of
        Inl e \<Rightarrow> Inl e
      | Inr unique_records \<Rightarrow> Inr (map trademark_tuple (sort_key serial_number unique_records)))"

text \<open>
  The schema of \<^verbatim>\<open>init_database\<close>. A row of \<^verbatim>\<open>trademarks\<close> maps the columns other
  than the primary key to their values; the table maps a serial number to its row. The
  two sub-tables hold a serial number with the owner or statement columns.
\<close>

type_synonym row = "string \<rightharpoonup> pyval"

record database =
  trademarks :: "string \<rightharpoonup> row"
  trademark_owners :: "(string \<times> owner) list"
  trademark_statements :: "(string \<times> statement) list"

text \<open>
  One row of the statement at the time \<open>now\<close>, as a function of the row that the table
  holds for the serial number. Without such a row, the incoming row is inserted with the
  listed columns, \<^verbatim>\<open>updated_at\<close> from the template and \<^verbatim>\<open>created_at\<close> from its
  default. With one, each column of the \<^verbatim>\<open>SET\<close> clause is assigned from the incoming
  row (\<^verbatim>\<open>EXCLUDED\<close>), and \<^verbatim>\<open>updated_at\<close> is set to the time.
\<close>

definition excluded :: "pyval list \<Rightarrow> row" where
  "excluded vals = map_of (zip value_columns vals)"

definition written_row :: "real \<Rightarrow> pyval list \<Rightarrow> row option \<Rightarrow> row" where
  "written_row now vals existing =
     (case existing of
        None \<Rightarrow> (excluded vals)(''updated_at'' \<mapsto> PTime now, ''created_at'' \<mapsto> PTime now)
      | Some old \<Rightarrow>
          (foldl (\<lambda>row c. row(c := excluded vals c)) old set_columns)(''updated_at'' \<mapsto> PTime now))"

definition upsert_row :: "real \<Rightarrow> string \<times> pyval list \<Rightarrow> (string \<rightharpoonup> row) \<Rightarrow> (string \<rightharpoonup> row)" where
  "upsert_row now tuple tbl =
     (case tuple of (serial, vals) \<Rightarrow> tbl(serial \<mapsto> written_row now vals (tbl serial)))"

definition execute_values ::
  "real \<Rightarrow> (string \<times> pyval list) list \<Rightarrow> (string \<rightharpoonup> row) \<Rightarrow> (string \<rightharpoonup> row)" where
  "execute_values now rows tbl = foldl (\<lambda>t tuple. upsert_row now tuple t) tbl rows"

text \<open>
  \<^verbatim>\<open>_do_upsert\<close>: deduplicate, sort by serial number, build the values, execute the one
  statement on \<^verbatim>\<open>trademarks\<close>, commit, and return \<^verbatim>\<open>len(records)\<close>.
\<close>

definition do_upsert :: "real \<Rightarrow> case_record list \<Rightarrow> database \<Rightarrow> exn + (database \<times> nat)" where
  "do_upsert now records db =
     (case trademark_values records of
        Inl e \<Rightarrow> Inl e
      | Inr values \<Rightarrow>
          Inr (db\<lparr>trademarks := execute_values now values (trademarks db)\<rparr>, length records))"


subsection \<open>\<^verbatim>\<open>upsert_batch\<close>: the retry loop\<close>

text \<open>
  What lies outside the program is an environment that a run does not change: what the
  database does to the \<open>k\<close>-th connection that is opened (\<open>outcome_of\<close>), the \<open>k\<close>-th
  value of \<^verbatim>\<open>random.uniform(0, 1)\<close>, the batch size \<^verbatim>\<open>BATCH_SIZE\<close> and the files. A
  connection either fails to open (the variable \<^verbatim>\<open>conn\<close> stays \<^verbatim>\<open>None\<close>), or a
  statement of its transaction raises, or the transaction runs.

  A document is what \<^verbatim>\<open>ET.iterparse\<close> delivers: the elements whose end it reports, in
  order, and then either the end of the document or an exception (\<^verbatim>\<open>ParseError\<close> for
  a malformed document).
\<close>

datatype outcome =
    Succeeds
  | ConnectRaises exn
  | WriteRaises exn

datatype xml_source = XmlSource (parsed: "element list") (failure: "exn option")

datatype file_content =
    XmlDoc xml_source
  | ZipArchive "(string \<times> xml_source) list"
  | Unreadable exn

record env =
  outcome_of :: "nat \<Rightarrow> outcome"
  uniform01 :: "nat \<Rightarrow> real"
  batch_size :: nat
  files :: "string \<Rightarrow> file_content"

text \<open>
  The state of a run: the database, the clock, how many connections were opened and how
  many random numbers drawn, and the trace of the database actions, the sleeps and the
  log lines of level warning or error (with the coordinator's line for a completed file).
\<close>

datatype event =
    Connect
  | Commit
  | Rollback
  | Close
  | Sleep real
  | LogRetry exn nat nat
  | LogPersisted exn nat
  | LogParseError string
  | LogProcessingError string exn
  | LogFileError string string
  | LogFileCompleted string nat nat

record world =
  dbase :: database
  clock :: real
  connections :: nat
  draws :: nat
  events :: "event list"

definition emit :: "event list \<Rightarrow> world \<Rightarrow> world" where
  "emit es w = w\<lparr>events := events w @ es\<rparr>"

text \<open>
  The body of the \<^verbatim>\<open>try\<close> on connection number \<open>k\<close>: the result of \<^verbatim>\<open>_do_upsert\<close>, or
  the exception with whether \<^verbatim>\<open>conn\<close> was set when it was raised.
\<close>

definition run_transaction ::
  "env \<Rightarrow> case_record list \<Rightarrow> nat \<Rightarrow> world \<Rightarrow> ((bool \<times> exn) + nat) \<times> world" where
  "run_transaction env records k w =
     (case outcome_of env k of
        ConnectRaises e \<Rightarrow> (Inl (False, e), w)
      | WriteRaises e \<Rightarrow> (Inl (True, e), emit [Connect] w)
      | Succeeds \<Rightarrow>
          (case do_upsert (clock w) records (dbase w) of
             Inl e \<Rightarrow> (Inl (True, e), emit [Connect] w)
           | Inr (d, result) \<Rightarrow> (Inr result, emit [Connect, Commit, Close] (w\<lparr>dbase := d\<rparr>))))"

text \<open>\<^verbatim>\<open>if conn:\<close> roll back and close, each under its own \<^verbatim>\<open>try\<close>.\<close>

definition release :: "bool \<Rightarrow> world \<Rightarrow> world" where
  "release conn w = (if conn then emit [Rollback, Close] w else w)"

definition retryable :: "exn \<Rightarrow> bool" where
  "retryable e = (e = DeadlockDetected \<or> e = LockNotAvailable)"

text \<open>
  The loop \<^verbatim>\<open>for attempt in range(max_retries)\<close> from the iteration \<open>attempt\<close> on, with
  the statements after the loop. Inside the loop \<open>max_retries\<close> is at least 1, so the
  subtraction is the one of the source.
\<close>

function upsert_attempts ::
  "env \<Rightarrow> case_record list \<Rightarrow> nat \<Rightarrow> nat \<Rightarrow> exn option \<Rightarrow> world \<Rightarrow> (exn + nat) \<times> world" where
  "upsert_attempts env records max_retries attempt last_error w =
     (if attempt < max_retries then
        (case run_transaction env records (connections w) (w\<lparr>connections := Suc (connections w)\<rparr>) of
           (Inr result, w') \<Rightarrow> (Inr result, w')
         | (Inl (conn, e), w') \<Rightarrow>
             if retryable e then
               (if attempt < max_retries - 1 then
                  (let sleep_time = 2 ^ attempt + uniform01 env (draws w')
                   in upsert_attempts env records max_retries (Suc attempt) (Some e)
                        (emit [LogRetry e (attempt + 1) max_retries, Sleep sleep_time]
                           ((release conn w')
                              \<lparr>draws := Suc (draws w'), clock := clock w' + sleep_time\<rparr>)))
                else (Inl e, emit [LogPersisted e max_retries] (release conn w')))
             else (Inl e, release conn w'))
      else (case last_error of Some e \<Rightarrow> (Inl e, w) | None \<Rightarrow> (Inr 0, w)))"
  by pat_completeness auto
termination
  by (relation "measure (\<lambda>(env, records, max_retries, attempt, last_error, w). max_retries - attempt)")
     auto

declare upsert_attempts.simps [simp del]

definition upsert_batch :: "env \<Rightarrow> case_record list \<Rightarrow> nat \<Rightarrow> world \<Rightarrow> (exn + nat) \<times> world" where
  "upsert_batch env records max_retries w =
     (if records = [] then (Inr 0, w) else upsert_attempts env records max_retries 0 None w)"

text \<open>
  What the \<open>i\<close>-th attempt of a call leaves in the trace when its transaction raises a
  deadlock or a lock timeout, for a call that starts with the connection number \<open>k\<close> and
  the random number \<open>dr\<close>: the connection is opened, rolled back and closed; then either
  the warning and the sleep of \<open>2 ^ i\<close> plus the jitter, or, in the last iteration, the
  error line.
\<close>

definition failure_events :: "env \<Rightarrow> nat \<Rightarrow> nat \<Rightarrow> nat \<Rightarrow> nat \<Rightarrow> event list" where
  "failure_events env max_retries k dr i =
     [Connect, Rollback, Close] @
     (case outcome_of env (k + i) of
        WriteRaises e \<Rightarrow>
          if i < max_retries - 1
          then [LogRetry e (i + 1) max_retries, Sleep (2 ^ i + uniform01 env (dr + i))]
          else [LogPersisted e max_retries]
      | _ \<Rightarrow> [])"

subsection \<open>\<^verbatim>\<open>process_xml_file\<close>\<close>




subsection \<open>\<^verbatim>\<open>process_zip_file\<close> and \<^verbatim>\<open>worker_process_file\<close>\<close>









subsection \<open>\<^verbatim>\<open>process_files_parallel\<close>\<close>



subsection \<open>Notions of the specification\<close>

text \<open>The first value of a list that is not \<^verbatim>\<open>None\<close>: the first one encountered.\<close>

fun first_some :: "'a option list \<Rightarrow> 'a option" where
  "first_some [] = None"
| "first_some (None # xs) = first_some xs"
| "first_some (Some x # xs) = Some x"

text \<open>The date a text parses to, null if it parses to none.\<close>

definition parsed_date :: "string option \<Rightarrow> date option" where
  "parsed_date s = (case parse_date s of Inr d \<Rightarrow> d | Inl _ \<Rightarrow> None)"

text \<open>The classification groups of a case file, in document order.\<close>

definition classification_groups :: "element \<Rightarrow> element list" where
  "classification_groups case_file_elem =
     (case elem_find case_file_elem ''classifications'' of
        None \<Rightarrow> []
      | Some classifications \<Rightarrow> elem_findall classifications ''classification'')"

definition intl_codes_of :: "element \<Rightarrow> string list" where
  "intl_codes_of case_file_elem =
     concat (map (\<lambda>g. get_all_text g ''international-code'') (classification_groups case_file_elem))"

definition us_codes_of :: "element \<Rightarrow> string list" where
  "us_codes_of case_file_elem =
     concat (map (\<lambda>g. get_all_text g ''us-code'') (classification_groups case_file_elem))"

text \<open>
  The elements of a document that give a record: the \<^verbatim>\<open>case-file\<close> elements with a
  serial number.
\<close>

definition has_serial :: "element \<Rightarrow> bool" where
  "has_serial e = (case get_text e ''serial-number'' of None \<Rightarrow> False | Some s \<Rightarrow> s \<noteq> [])"





subsection \<open>Example values\<close>

definition mk_record :: "string \<Rightarrow> date option \<Rightarrow> date option \<Rightarrow> case_record" where
  "mk_record serial td sd =
     \<lparr>serial_number = serial, transaction_date = td, status_date = sd, attrs = Map.empty,
      owners = [], statements = []\<rparr>"

text \<open>
  A database that holds one trademark, and an incoming record for the same serial number
  with one owner and one statement.
\<close>

definition stored_db :: database where
  "stored_db =
     \<lparr>trademarks =
        [''78000001'' \<mapsto>
           [''status_code'' \<mapsto> PStr ''630'', ''attorney_name'' \<mapsto> PStr ''A. Smith'',
            ''created_at'' \<mapsto> PTime 0, ''updated_at'' \<mapsto> PTime 0]],
      trademark_owners = [],
      trademark_statements = []\<rparr>"

definition incoming :: case_record where
  "incoming =
     \<lparr>serial_number = ''78000001'',
      transaction_date = Some (2024, 6, 1),
      status_date = None,
      attrs = [''status_code'' \<mapsto> PStr ''800''],
      owners =
        [\<lparr>entry_number = Some ''1'', party_type = Some ''30'', party_name = Some ''ACME'',
          legal_entity_type = None, address = [], city = None, state = None, country = None,
          postcode = None, dba_aka = None\<rparr>],
      statements = [\<lparr>type_code = ''GS0251'', stmt_text = ''shirts''\<rparr>]\<rparr>"

text \<open>An environment in which every transaction runs, and the state at the start of a run.\<close>

definition calm :: env where
  "calm =
     \<lparr>outcome_of = (\<lambda>k. Succeeds), uniform01 = (\<lambda>k. 0), batch_size = 2,
      files = (\<lambda>p. Unreadable (OtherError ''No such file or directory''))\<rparr>"

definition start :: "database \<Rightarrow> world" where
  "start d = \<lparr>dbase = d, clock = 0, connections = 0, draws = 0, events = []\<rparr>"

text \<open>
  An environment whose first five transactions meet a deadlock, and one whose first two
  meet a lock timeout; every later transaction runs.
\<close>

definition stormy :: env where
  "stormy = calm\<lparr>outcome_of := (\<lambda>k. if k < 5 then WriteRaises DeadlockDetected else Succeeds)\<rparr>"

definition flaky :: env where
  "flaky = calm\<lparr>outcome_of := (\<lambda>k. if k < 2 then WriteRaises LockNotAvailable else Succeeds)\<rparr>"

text \<open>
  A case file with two classification groups that share the code 025; the first group has
  no primary code, and each has a date of first use.
\<close>

definition leaf :: "string \<Rightarrow> string \<Rightarrow> element" where
  "leaf t txt = Element t (Some txt) []"

definition two_groups :: element where
  "two_groups =
     Element ''case-file'' None
       [leaf ''serial-number'' ''78000001'',
        Element ''classifications'' None
          [Element ''classification'' None
             [leaf ''international-code'' ''025'', leaf ''us-code'' ''022'',
              leaf ''first-use-anywhere-date'' ''20200101''],
           Element ''classification'' None
             [leaf ''international-code'' ''025'', leaf ''international-code'' ''035'',
              leaf ''primary-code'' ''035'', leaf ''first-use-anywhere-date'' ''20210101'',
              leaf ''first-use-in-commerce-date'' ''20210301'']]]"



section \<open>Properties\<close>

subsection \<open>Date parsing\<close>

lemma strptime_raises_only_ValueError: "strptime_Ymd s = Inl e \<Longrightarrow> e = ValueError"
  by (auto simp: strptime_Ymd_def datetime_date_def split: option.splits if_splits prod.splits)

lemma parse_date_total: "\<exists>r. parse_date x = Inr r"
  by (auto simp: parse_date_def split: option.splits sum.splits dest: strptime_raises_only_ValueError)





























subsection \<open>Deduplication\<close>

lemma map_of_append_entry:
  "map_of (append_entry g k r) =
     (map_of g)(k \<mapsto> (case map_of g k of None \<Rightarrow> [r] | Some es \<Rightarrow> es @ [r]))"
  by (induction g k r rule: append_entry.induct) (auto simp: fun_eq_iff)

lemma keys_append_entry:
  "map fst (append_entry g k r) = (if k \<in> set (map fst g) then map fst g else map fst g @ [k])"
  by (induction g k r rule: append_entry.induct) auto

lemma group_by_serial_snoc:
  "group_by_serial (rs @ [r]) = append_entry (group_by_serial rs) (serial_number r) r"
  by (simp add: group_by_serial_def)

lemma group_keys:
  "distinct (map fst (group_by_serial rs)) \<and>
   set (map fst (group_by_serial rs)) = serial_number ` set rs"
proof (induction rs rule: rev_induct)
  case Nil
  then show ?case by (simp add: group_by_serial_def)
next
  case (snoc r rs)
  then show ?case
    by (auto simp: group_by_serial_snoc keys_append_entry)
qed

lemma group_lookup:
  "map_of (group_by_serial rs) k =
     (if k \<in> serial_number ` set rs then Some (filter (\<lambda>r. serial_number r = k) rs) else None)"
proof (induction rs rule: rev_induct)
  case Nil
  then show ?case by (simp add: group_by_serial_def)
next
  case (snoc r rs)
  show ?case
  proof (cases "serial_number r = k")
    case True
    with snoc show ?thesis
      by (auto simp: group_by_serial_snoc map_of_append_entry filter_empty_conv image_iff)
  next
    case False
    with snoc show ?thesis
      by (auto simp: group_by_serial_snoc map_of_append_entry)
  qed
qed

lemma group_entries:
  assumes "(k, es) \<in> set (group_by_serial rs)"
  shows "es = filter (\<lambda>r. serial_number r = k) rs \<and> es \<noteq> []"
proof -
  from assms group_keys [of rs] have "map_of (group_by_serial rs) k = Some es"
    by simp
  then have k: "k \<in> serial_number ` set rs" and es: "es = filter (\<lambda>r. serial_number r = k) rs"
    by (auto simp: group_lookup split: if_splits)
  from k es show ?thesis by (auto simp: filter_empty_conv)
qed

lemma sorted_last_max:
  "xs \<noteq> [] \<Longrightarrow> sorted (map f xs) \<Longrightarrow> x \<in> set xs \<Longrightarrow> f x \<le> f (last xs)"
proof (induction xs)
  case Nil
  then show ?case by simp
next
  case (Cons y ys)
  then show ?case by (cases ys) auto
qed

lemma index0_hd: "xs \<noteq> [] \<Longrightarrow> index0 xs = Inr (hd xs)"
  by (cases xs) (simp_all add: index0_def)

lemma newest_max:
  assumes "es \<noteq> []"
  shows "\<exists>r. newest es = Inr r \<and> r \<in> set es \<and> (\<forall>r' \<in> set es. date_key r' \<le> date_key r)"
proof (cases "length es = 1")
  case True
  then obtain x where "es = [x]" by (cases es) auto
  then show ?thesis by (simp add: newest_def index0_def)
next
  case False
  let ?s = "sort_key date_key (rev es)"
  from assms have ne: "?s \<noteq> []"
    by (metis length_sort length_0_conv length_rev)
  then have hd: "hd (sort_reverse date_key es) = last ?s"
    by (simp add: sort_reverse_def hd_rev)
  from ne have "newest es = Inr (last ?s)"
    using False hd by (simp add: newest_def index0_hd sort_reverse_def)
  moreover from ne have "last ?s \<in> set ?s" by (rule last_in_set)
  then have "last ?s \<in> set es" by simp
  moreover have "\<forall>r' \<in> set es. date_key r' \<le> date_key (last ?s)"
  proof
    fix r' assume "r' \<in> set es"
    then have "r' \<in> set ?s" by simp
    from sorted_last_max [OF ne _ this, of date_key] show "date_key r' \<le> date_key (last ?s)"
      by simp
  qed
  ultimately show ?thesis by blast
qed

lemma keep_newest_spec:
  assumes "\<forall>(k, es) \<in> set g. es \<noteq> []"
  shows "\<exists>out. keep_newest g = Inr out \<and> list_all2 (\<lambda>ke r. newest (snd ke) = Inr r) g out"
  using assms
proof (induction g)
  case Nil
  then show ?case by simp
next
  case (Cons a g)
  obtain k es where a: "a = (k, es)" by (cases a)
  with Cons.prems have "es \<noteq> []" by simp
  from newest_max [OF this] obtain r where r: "newest es = Inr r" by blast
  from Cons obtain out where "keep_newest g = Inr out"
    "list_all2 (\<lambda>ke r. newest (snd ke) = Inr r) g out" by auto
  with a r show ?case by simp
qed

lemma deduplicate_groups:
  "\<exists>out. deduplicate_records rs = Inr out \<and>
     list_all2 (\<lambda>ke r. r \<in> set rs \<and> serial_number r = fst ke \<and>
        (\<forall>r' \<in> set rs. serial_number r' = fst ke \<longrightarrow> date_key r' \<le> date_key r))
       (group_by_serial rs) out"
proof -
  have ne: "\<forall>(k, es) \<in> set (group_by_serial rs). es \<noteq> []"
    using group_entries by blast
  from keep_newest_spec [OF ne] obtain out where
    out: "keep_newest (group_by_serial rs) = Inr out"
    and all: "list_all2 (\<lambda>ke r. newest (snd ke) = Inr r) (group_by_serial rs) out" by blast
  have "list_all2 (\<lambda>ke r. r \<in> set rs \<and> serial_number r = fst ke \<and>
        (\<forall>r' \<in> set rs. serial_number r' = fst ke \<longrightarrow> date_key r' \<le> date_key r))
       (group_by_serial rs) out"
  proof (rule list.rel_mono_strong [OF all])
    fix ke r
    assume ke: "ke \<in> set (group_by_serial rs)" and "r \<in> set out" and n: "newest (snd ke) = Inr r"
    obtain k es where [simp]: "ke = (k, es)" by (cases ke)
    from ke group_entries [of k es rs] have es: "es = filter (\<lambda>r. serial_number r = k) rs" "es \<noteq> []"
      by auto
    from newest_max [OF es(2)] n have "r \<in> set es" "\<forall>r' \<in> set es. date_key r' \<le> date_key r"
      by auto
    with es(1) show "r \<in> set rs \<and> serial_number r = fst ke \<and>
        (\<forall>r' \<in> set rs. serial_number r' = fst ke \<longrightarrow> date_key r' \<le> date_key r)"
      by auto
  qed
  with out show ?thesis by (auto simp: deduplicate_records_def)
qed

lemma deduplicate_general:
  "\<exists>out. deduplicate_records rs = Inr out \<and>
      distinct (map serial_number out) \<and>
      serial_number ` set out = serial_number ` set rs \<and>
      (\<forall>r \<in> set out. r \<in> set rs \<and>
         (\<forall>r' \<in> set rs. serial_number r' = serial_number r \<longrightarrow> date_key r' \<le> date_key r))"
proof -
  from deduplicate_groups [of rs] obtain out where
    out: "deduplicate_records rs = Inr out"
    and all: "list_all2 (\<lambda>ke r. r \<in> set rs \<and> serial_number r = fst ke \<and>
        (\<forall>r' \<in> set rs. serial_number r' = fst ke \<longrightarrow> date_key r' \<le> date_key r))
       (group_by_serial rs) out" by blast
  from all have keys: "map serial_number out = map fst (group_by_serial rs)"
    by (induction rule: list_all2_induct) auto
  from all have each: "\<forall>r \<in> set out. r \<in> set rs \<and>
         (\<forall>r' \<in> set rs. serial_number r' = serial_number r \<longrightarrow> date_key r' \<le> date_key r)"
    by (induction rule: list_all2_induct) auto
  from keys group_keys [of rs] have "distinct (map serial_number out)"
    "serial_number ` set out = serial_number ` set rs"
    by (simp_all flip: set_map)
  with out each show ?thesis by blast
qed

lemmas dedup_eval = deduplicate_records_def group_by_serial_def newest_def sort_reverse_def
  index0_def date_key_def min_date_def

lemma dedup_pair:
  assumes s: "serial_number a = serial_number b" and lt: "date_key a < date_key b"
  shows "deduplicate_records [a, b] = Inr [b] \<and> deduplicate_records [b, a] = Inr [b]"
  using s lt by (simp add: deduplicate_records_def group_by_serial_def newest_def sort_reverse_def
      index0_def not_le less_imp_le)

text \<open>
  C4: the deduplicator returns one record for each serial number of the batch, and that
  record is an entry of the batch with this serial number whose pair
  (\<^verbatim>\<open>transaction_date\<close>, \<^verbatim>\<open>status_date\<close>), with 1800-01-01 for a missing date, is greatest
  in the lexicographic order. Of two records with one serial number and the transaction
  dates 2024-01-01 and 2024-06-01, the second is the one retained, in either order.
\<close>

theorem deduplicate_records_spec:
  "(\<exists>out. deduplicate_records records = Inr out \<and>
      distinct (map serial_number out) \<and>
      serial_number ` set out = serial_number ` set records \<and>
      (\<forall>r \<in> set out. r \<in> set records \<and>
         (\<forall>r' \<in> set records. serial_number r' = serial_number r \<longrightarrow> date_key r' \<le> date_key r))) \<and>
   (serial_number a = serial_number b \<and> transaction_date a = Some (2024, 1, 1) \<and>
    transaction_date b = Some (2024, 6, 1) \<longrightarrow>
      deduplicate_records [a, b] = Inr [b] \<and> deduplicate_records [b, a] = Inr [b])"
proof -
  have "transaction_date a = Some (2024, 1, 1) \<Longrightarrow> transaction_date b = Some (2024, 6, 1) \<Longrightarrow>
      date_key a < date_key b"
    by (simp add: date_key_def)
  with dedup_pair [of a b] deduplicate_general [of records] show ?thesis by blast
qed

theorem deduplicate_records_spec_witness:
  "deduplicate_records
     [mk_record ''78000001'' (Some (2024, 1, 1)) None, mk_record ''78000001'' (Some (2024, 6, 1)) None]
     = Inr [mk_record ''78000001'' (Some (2024, 6, 1)) None] \<and>
   deduplicate_records
     [mk_record ''78000001'' (Some (2024, 6, 1)) None, mk_record ''78000001'' (Some (2024, 1, 1)) None]
     = Inr [mk_record ''78000001'' (Some (2024, 6, 1)) None]"
  using deduplicate_records_spec [of "[]" "mk_record ''78000001'' (Some (2024, 1, 1)) None"
      "mk_record ''78000001'' (Some (2024, 6, 1)) None"]
  by (simp add: mk_record_def)

text \<open>
  C5 as stated fails: a real date before 1800-01-01 is older than the value that stands
  for a missing date, so the record without dates is the one retained.
\<close>

theorem null_dates_counterexample:
  "transaction_date (mk_record ''78000001'' None None) = None \<and>
   status_date (mk_record ''78000001'' None None) = None \<and>
   serial_number (mk_record ''78000001'' (Some (1799, 12, 31)) None)
     = serial_number (mk_record ''78000001'' None None) \<and>
   transaction_date (mk_record ''78000001'' (Some (1799, 12, 31)) None) = Some (1799, 12, 31) \<and>
   deduplicate_records
     [mk_record ''78000001'' None None, mk_record ''78000001'' (Some (1799, 12, 31)) None]
     = Inr [mk_record ''78000001'' None None]"
  by (simp add: mk_record_def dedup_eval)

text \<open>
  C5 (amended): a record whose transaction date and status date are both null is not the
  record retained when another record of the batch with the same serial number has a
  transaction date after 1800-01-01, or has no transaction date and a status date after
  1800-01-01.
\<close>

theorem null_dates_lose:
  assumes "transaction_date a = None" and "status_date a = None"
    and "b \<in> set records" and "serial_number b = serial_number a"
    and "(\<exists>d. transaction_date b = Some d \<and> min_date < d) \<or>
         (transaction_date b = None \<and> (\<exists>d. status_date b = Some d \<and> min_date < d))"
    and "deduplicate_records records = Inr out"
  shows "a \<notin> set out"
proof
  assume a: "a \<in> set out"
  from deduplicate_general [of records] assms(6) a assms(3,4)
  have "date_key b \<le> date_key a" by auto
  moreover from assms(1,2) have "date_key a = (min_date, min_date)"
    by (simp add: date_key_def)
  moreover from assms(5) have "(min_date, min_date) < date_key b"
    by (auto simp: date_key_def split: option.splits)
  ultimately show False by simp
qed

theorem null_dates_lose_witness:
  "deduplicate_records
     [mk_record ''78000001'' None None, mk_record ''78000001'' (Some (2024, 6, 1)) None]
     = Inr [mk_record ''78000001'' (Some (2024, 6, 1)) None] \<and>
   mk_record ''78000001'' None None \<notin> set [mk_record ''78000001'' (Some (2024, 6, 1)) None]"
proof -
  let ?a = "mk_record ''78000001'' None None"
  let ?b = "mk_record ''78000001'' (Some (2024, 6, 1)) None"
  have d: "deduplicate_records [?a, ?b] = Inr [?b]"
    by (simp add: mk_record_def dedup_eval)
  have "?a \<notin> set [?b]"
    by (rule null_dates_lose [of ?a ?b "[?a, ?b]", OF _ _ _ _ _ d])
       (simp_all add: mk_record_def min_date_def)
  with d show ?thesis by simp
qed

subsection \<open>The upsert statement\<close>




lemma distinct_value_columns: "distinct value_columns"
  by (simp add: value_columns_def)










lemma trademark_values_rows:
  "\<exists>unique_records.
     deduplicate_records records = Inr unique_records \<and>
     trademark_values records = Inr (map trademark_tuple (sort_key serial_number unique_records)) \<and>
     distinct (map serial_number unique_records) \<and>
     serial_number ` set unique_records = serial_number ` set records \<and>
     set unique_records \<subseteq> set records"
  using deduplicate_general [of records] by (auto simp: trademark_values_def)

lemma fst_trademark_tuple: "fst \<circ> trademark_tuple = serial_number"
  by (simp add: trademark_tuple_def fun_eq_iff)

lemma trademark_values_keys:
  "\<exists>rows. trademark_values records = Inr rows \<and>
     sorted (map fst rows) \<and> distinct (map fst rows) \<and>
     set (map fst rows) = serial_number ` set records \<and>
     set rows \<subseteq> trademark_tuple ` set records"
proof -
  from trademark_values_rows [of records] obtain u where
    u: "trademark_values records = Inr (map trademark_tuple (sort_key serial_number u))"
      "distinct (map serial_number u)" "serial_number ` set u = serial_number ` set records"
      "set u \<subseteq> set records"
    by blast
  let ?rows = "map trademark_tuple (sort_key serial_number u)"
  have keys: "map fst ?rows = map serial_number (sort_key serial_number u)"
    by (simp add: fst_trademark_tuple)
  have "sorted (map fst ?rows)" by (simp only: keys sorted_sort_key)
  moreover from u(2) have "distinct (map fst ?rows)"
    by (simp only: keys) (simp add: distinct_map)
  moreover from u(3) have "set (map fst ?rows) = serial_number ` set records"
    by (simp only: keys) simp
  moreover from u(4) have "set ?rows \<subseteq> trademark_tuple ` set records" by auto
  ultimately show ?thesis using u(1) by blast
qed

lemma do_upsert_result:
  "trademark_values records = Inr rows \<Longrightarrow>
     do_upsert now records d =
       Inr (d\<lparr>trademarks := execute_values now rows (trademarks d)\<rparr>, length records)"
  by (simp add: do_upsert_def)






text \<open>
  C1 does not hold of the code: \<^verbatim>\<open>_do_upsert\<close> executes the one statement on
  \<^verbatim>\<open>trademarks\<close>. For a batch of one record with an owner and a statement, the owner
  table and the statement table are as empty after the upsert as before.
\<close>

theorem do_upsert_omits_subtables:
  "owners incoming \<noteq> [] \<and> statements incoming \<noteq> [] \<and>
   (\<exists>d'. do_upsert 1 [incoming] stored_db = Inr (d', 1) \<and>
      trademark_owners d' = [] \<and> trademark_statements d' = [])"
  by (simp add: do_upsert_def trademark_values_def dedup_eval incoming_def stored_db_def)

subsection \<open>The retry loop\<close>

lemma step_retry:
  assumes "outcome_of env (connections w) = WriteRaises e" and "retryable e"
    and "attempt < max_retries - 1"
  shows "upsert_attempts env records max_retries attempt last_error w =
     upsert_attempts env records max_retries (Suc attempt) (Some e)
       (w\<lparr>connections := Suc (connections w), draws := Suc (draws w),
          clock := clock w + (2 ^ attempt + uniform01 env (draws w)),
          events := events w @ [Connect, Rollback, Close, LogRetry e (attempt + 1) max_retries,
                                Sleep (2 ^ attempt + uniform01 env (draws w))]\<rparr>)"
proof -
  from assms(3) have "attempt < max_retries" by simp
  with assms show ?thesis
    by (subst upsert_attempts.simps) (simp add: run_transaction_def emit_def release_def Let_def)
qed

lemma step_last:
  assumes "outcome_of env (connections w) = WriteRaises e" and "retryable e"
    and "attempt < max_retries" and "\<not> attempt < max_retries - 1"
  shows "upsert_attempts env records max_retries attempt last_error w =
     (Inl e, w\<lparr>connections := Suc (connections w),
               events := events w @ [Connect, Rollback, Close, LogPersisted e max_retries]\<rparr>)"
  using assms
  by (subst upsert_attempts.simps) (simp add: run_transaction_def emit_def release_def)

lemma step_success:
  assumes "outcome_of env (connections w) = Succeeds" and "attempt < max_retries"
    and "do_upsert (clock w) records (dbase w) = Inr (d, n)"
  shows "upsert_attempts env records max_retries attempt last_error w =
     (Inr n, w\<lparr>connections := Suc (connections w), dbase := d,
               events := events w @ [Connect, Commit, Close]\<rparr>)"
  using assms
  by (subst upsert_attempts.simps) (simp add: run_transaction_def emit_def)

lemma failure_events_retry:
  "outcome_of env (k + i) = WriteRaises e \<Longrightarrow> i < max_retries - 1 \<Longrightarrow>
     failure_events env max_retries k dr i =
       [Connect, Rollback, Close, LogRetry e (i + 1) max_retries,
        Sleep (2 ^ i + uniform01 env (dr + i))]"
  by (simp add: failure_events_def)

lemma failure_events_last:
  "outcome_of env (k + i) = WriteRaises e \<Longrightarrow> \<not> i < max_retries - 1 \<Longrightarrow>
     failure_events env max_retries k dr i = [Connect, Rollback, Close, LogPersisted e max_retries]"
  by (simp add: failure_events_def)

lemma failures_prefix:
  assumes "connections w = k + a" and "draws w = dr + a" and "a + j < max_retries"
    and "\<forall>i. a \<le> i \<and> i < a + j \<longrightarrow> (\<exists>e. outcome_of env (k + i) = WriteRaises e \<and> retryable e)"
  shows "\<exists>w1 le1. upsert_attempts env records max_retries a le w =
             upsert_attempts env records max_retries (a + j) le1 w1 \<and>
           connections w1 = k + a + j \<and> draws w1 = dr + a + j \<and> dbase w1 = dbase w \<and>
           events w1 = events w @ concat (map (failure_events env max_retries k dr) [a..<a + j])"
  using assms
proof (induction j arbitrary: a le w)
  case 0
  then show ?case by auto
next
  case (Suc j)
  from Suc.prems(4) obtain e where e: "outcome_of env (k + a) = WriteRaises e" "retryable e"
    by (metis le_refl less_add_Suc1 add_Suc_right)
  from Suc.prems(3) have lt: "a < max_retries - 1" by simp
  let ?w = "w\<lparr>connections := Suc (connections w), draws := Suc (draws w),
          clock := clock w + (2 ^ a + uniform01 env (draws w)),
          events := events w @ [Connect, Rollback, Close, LogRetry e (a + 1) max_retries,
                                Sleep (2 ^ a + uniform01 env (draws w))]\<rparr>"
  from e Suc.prems(1) have e': "outcome_of env (connections w) = WriteRaises e" by simp
  have step: "upsert_attempts env records max_retries a le w =
      upsert_attempts env records max_retries (Suc a) (Some e) ?w"
    by (rule step_retry [OF e' e(2) lt])
  have c: "connections ?w = k + Suc a" "draws ?w = dr + Suc a"
    using Suc.prems(1,2) by simp_all
  have b: "Suc a + j < max_retries" using Suc.prems(3) by simp
  have h: "\<forall>i. Suc a \<le> i \<and> i < Suc a + j \<longrightarrow>
      (\<exists>e. outcome_of env (k + i) = WriteRaises e \<and> retryable e)"
    using Suc.prems(4) by auto
  from Suc.IH [OF c b h, of "Some e"] obtain w1 le1 where
    w1: "upsert_attempts env records max_retries (Suc a) (Some e) ?w =
             upsert_attempts env records max_retries (Suc a + j) le1 w1"
      "connections w1 = k + Suc a + j" "draws w1 = dr + Suc a + j" "dbase w1 = dbase ?w"
      "events w1 = events ?w @ concat (map (failure_events env max_retries k dr) [Suc a..<Suc a + j])"
    by blast
  have fe: "failure_events env max_retries k dr a =
      [Connect, Rollback, Close, LogRetry e (a + 1) max_retries,
       Sleep (2 ^ a + uniform01 env (draws w))]"
    using failure_events_retry [OF e(1) lt, of dr] Suc.prems(2) by simp
  have upt: "[a..<a + Suc j] = a # [Suc a..<Suc a + j]"
    by (simp add: upt_conv_Cons)
  show ?case
    apply (rule exI [of _ w1], rule exI [of _ le1])
    using step w1 fe upt by simp
qed

lemma do_upsert_total:
  "\<exists>d'. do_upsert now records d = Inr (d', length records)"
  using trademark_values_keys [of records] do_upsert_result [of records _ now d] by blast

lemma all_attempts_fail:
  assumes "0 < max_retries"
    and "\<forall>i < max_retries. \<exists>e. outcome_of env (connections w + i) = WriteRaises e \<and> retryable e"
  shows "\<exists>e w'. upsert_attempts env records max_retries 0 None w = (Inl e, w') \<and>
         outcome_of env (connections w + (max_retries - 1)) = WriteRaises e \<and>
         connections w' = connections w + max_retries \<and> dbase w' = dbase w \<and>
         events w' = events w @
           concat (map (failure_events env max_retries (connections w) (draws w)) [0..<max_retries])"
proof -
  let ?k = "connections w" and ?dr = "draws w" and ?m = "max_retries"
  from assms(1) have lt: "0 + (?m - 1) < ?m" by simp
  have pre: "\<forall>i. 0 \<le> i \<and> i < 0 + (?m - 1) \<longrightarrow>
      (\<exists>e. outcome_of env (?k + i) = WriteRaises e \<and> retryable e)"
    using assms(2) by auto
  from failures_prefix [of w ?k 0 ?dr "?m - 1" ?m env records None, OF _ _ lt pre]
  obtain w1 le1 where
    w1: "upsert_attempts env records ?m 0 None w = upsert_attempts env records ?m (?m - 1) le1 w1"
      "connections w1 = ?k + (?m - 1)" "draws w1 = ?dr + (?m - 1)" "dbase w1 = dbase w"
      "events w1 = events w @ concat (map (failure_events env ?m ?k ?dr) [0..<?m - 1])"
    by auto
  from assms obtain e where e: "outcome_of env (?k + (?m - 1)) = WriteRaises e" "retryable e"
    by (metis diff_less zero_less_one)
  from e w1(2) have e1: "outcome_of env (connections w1) = WriteRaises e" by simp
  from assms(1) have a: "?m - 1 < ?m" "\<not> ?m - 1 < ?m - 1" by simp_all
  from step_last [OF e1 e(2) a] have last:
    "upsert_attempts env records ?m (?m - 1) le1 w1 =
       (Inl e, w1\<lparr>connections := Suc (connections w1),
               events := events w1 @ [Connect, Rollback, Close, LogPersisted e ?m]\<rparr>)" .
  have fe: "failure_events env ?m ?k ?dr (?m - 1) = [Connect, Rollback, Close, LogPersisted e ?m]"
    by (rule failure_events_last [OF e(1) a(2)])
  from assms(1) have upt: "[0..<?m] = [0..<?m - 1] @ [?m - 1]"
    by (metis Suc_diff_1 upt_Suc_append zero_le)
  have "concat (map (failure_events env ?m ?k ?dr) [0..<?m]) =
      concat (map (failure_events env ?m ?k ?dr) [0..<?m - 1]) @ [Connect, Rollback, Close, LogPersisted e ?m]"
    using fe by (subst upt) simp
  with w1 last e(1) assms(1) show ?thesis by simp
qed

lemma success_after_failures:
  assumes "j < max_retries"
    and "\<forall>i < j. \<exists>e. outcome_of env (connections w + i) = WriteRaises e \<and> retryable e"
    and "outcome_of env (connections w + j) = Succeeds"
  shows "\<exists>w'. upsert_attempts env records max_retries 0 None w = (Inr (length records), w') \<and>
         connections w' = connections w + j + 1 \<and>
         do_upsert (clock w') records (dbase w) = Inr (dbase w', length records) \<and>
         events w' = events w @
           concat (map (failure_events env max_retries (connections w) (draws w)) [0..<j])
           @ [Connect, Commit, Close]"
proof -
  let ?k = "connections w" and ?dr = "draws w" and ?m = "max_retries"
  from assms(1) have lt: "0 + j < ?m" by simp
  have pre: "\<forall>i. 0 \<le> i \<and> i < 0 + j \<longrightarrow>
      (\<exists>e. outcome_of env (?k + i) = WriteRaises e \<and> retryable e)"
    using assms(2) by auto
  from failures_prefix [of w ?k 0 ?dr j ?m env records None, OF _ _ lt pre]
  obtain w1 le1 where
    w1: "upsert_attempts env records ?m 0 None w = upsert_attempts env records ?m j le1 w1"
      "connections w1 = ?k + j" "draws w1 = ?dr + j" "dbase w1 = dbase w"
      "events w1 = events w @ concat (map (failure_events env ?m ?k ?dr) [0..<j])"
    by auto
  from assms(3) w1(2) have ok: "outcome_of env (connections w1) = Succeeds" by simp
  from do_upsert_total [of "clock w1" records "dbase w1"] obtain d where
    d: "do_upsert (clock w1) records (dbase w1) = Inr (d, length records)" by blast
  from step_success [OF ok assms(1) d] w1 d show ?thesis by simp
qed

lemma attempt_cases:
  assumes "attempt < max_retries"
    and "upsert_attempts env records max_retries attempt last_error w = (Inr n, w')"
  shows "n = length records \<or>
     (\<exists>e w''. attempt < max_retries - 1 \<and>
        upsert_attempts env records max_retries (Suc attempt) (Some e) w'' = (Inr n, w'))"
proof -
  let ?w = "w\<lparr>connections := Suc (connections w)\<rparr>"
  obtain r w1 where rt: "run_transaction env records (connections w) ?w = (r, w1)"
    by (cases "run_transaction env records (connections w) ?w")
  show ?thesis
  proof (cases r)
    case (Inr result)
    with rt have "result = length records"
      using do_upsert_total [of "clock ?w" records "dbase ?w"]
      by (auto simp: run_transaction_def split: outcome.splits sum.splits)
    moreover from assms rt Inr have "n = result"
      by (subst (asm) upsert_attempts.simps) simp
    ultimately show ?thesis by simp
  next
    case (Inl ce)
    obtain c e where ce: "ce = (c, e)" by (cases ce)
    from assms rt Inl ce show ?thesis
      by (subst (asm) upsert_attempts.simps) (auto simp: Let_def split: if_splits)
  qed
qed

lemma upsert_attempts_count:
  "upsert_attempts env records max_retries attempt last_error w = (Inr n, w') \<Longrightarrow>
     attempt < max_retries \<Longrightarrow> n = length records"
proof (induction "max_retries - attempt" arbitrary: attempt last_error w)
  case 0
  then show ?case by simp
next
  case (Suc d)
  from attempt_cases [OF Suc.prems(2,1)] show ?case
  proof
    assume "n = length records"
    then show ?thesis .
  next
    assume "\<exists>e w''. attempt < max_retries - 1 \<and>
        upsert_attempts env records max_retries (Suc attempt) (Some e) w'' = (Inr n, w')"
    then obtain e w'' where lt: "attempt < max_retries - 1"
      and r: "upsert_attempts env records max_retries (Suc attempt) (Some e) w'' = (Inr n, w')"
      by blast
    from lt Suc.hyps(2) have "d = max_retries - Suc attempt" "Suc attempt < max_retries" by simp_all
    from Suc.hyps(1) [OF this(1) r this(2)] show ?thesis .
  qed
qed

text \<open>
  C2 as stated fails on the number of retries: the loop makes \<^verbatim>\<open>max_retries\<close> attempts,
  not \<^verbatim>\<open>max_retries\<close> retries. With the default of 5 and five deadlocks in a row, the
  fifth one is raised to the caller after four sleeps, although a sixth transaction
  would have run.
\<close>

theorem five_deadlocks_counterexample:
  "map (outcome_of stormy) [0, 1, 2, 3, 4, 5] =
     [WriteRaises DeadlockDetected, WriteRaises DeadlockDetected, WriteRaises DeadlockDetected,
      WriteRaises DeadlockDetected, WriteRaises DeadlockDetected, Succeeds] \<and>
   (\<exists>w'. upsert_batch stormy [incoming] 5 (start stored_db) = (Inl DeadlockDetected, w') \<and>
      connections w' = 5 \<and>
      events w' =
        [Connect, Rollback, Close, LogRetry DeadlockDetected 1 5, Sleep 1,
         Connect, Rollback, Close, LogRetry DeadlockDetected 2 5, Sleep 2,
         Connect, Rollback, Close, LogRetry DeadlockDetected 3 5, Sleep 4,
         Connect, Rollback, Close, LogRetry DeadlockDetected 4 5, Sleep 8,
         Connect, Rollback, Close, LogPersisted DeadlockDetected 5])"
proof -
  have h: "\<forall>i < 5. \<exists>e. outcome_of stormy (connections (start stored_db) + i) = WriteRaises e \<and> retryable e"
    by (simp add: stormy_def retryable_def start_def)
  from all_attempts_fail [of 5 stormy "start stored_db" "[incoming]", OF _ h]
  obtain e w' where
    r: "upsert_attempts stormy [incoming] 5 0 None (start stored_db) = (Inl e, w')"
      "outcome_of stormy (connections (start stored_db) + (5 - 1)) = WriteRaises e"
      "connections w' = connections (start stored_db) + 5"
      "events w' = events (start stored_db) @
         concat (map (failure_events stormy 5 (connections (start stored_db)) (draws (start stored_db))) [0..<5])"
    by auto
  from r(2) have e: "e = DeadlockDetected"
    by (simp add: stormy_def start_def)
  have upt: "[0..<5] = [0, 1, 2, 3, 4 :: nat]"
    by (simp add: upt_rec)
  from r(4) have ev: "events w' =
        [Connect, Rollback, Close, LogRetry DeadlockDetected 1 5, Sleep 1,
         Connect, Rollback, Close, LogRetry DeadlockDetected 2 5, Sleep 2,
         Connect, Rollback, Close, LogRetry DeadlockDetected 3 5, Sleep 4,
         Connect, Rollback, Close, LogRetry DeadlockDetected 4 5, Sleep 8,
         Connect, Rollback, Close, LogPersisted DeadlockDetected 5]"
    by (simp add: upt failure_events_def stormy_def calm_def start_def)
  from r(1,3) e ev show ?thesis
    by (simp add: upsert_batch_def start_def stormy_def)
qed

text \<open>
  C2 (amended): when a transaction raises a deadlock or a lock timeout, \<^verbatim>\<open>upsert_batch\<close>
  rolls back, closes the connection, and tries the whole batch again after a sleep of
  \<open>2 ^ attempt\<close> plus the jitter (\<open>attempt\<close> counts from 0, the jitter is the value of
  \<^verbatim>\<open>random.uniform(0, 1)\<close>), but only while \<open>attempt < max_retries - 1\<close>. If the first
  \<open>max_retries\<close> transactions fail so, the call makes exactly \<open>max_retries\<close> attempts,
  sleeps after all but the last, raises the last error and leaves the database as it was:
  with the default of 5, each of the first four failures is followed by a retry and the
  fifth is raised. If the first \<open>j < max_retries\<close> transactions fail so and the next one
  runs, the call returns the length of the batch, and the database is the one
  \<^verbatim>\<open>_do_upsert\<close> leaves for the whole batch.
\<close>

theorem upsert_batch_retry:
  assumes "records \<noteq> []" and "0 < max_retries"
  shows
    "((\<forall>i < max_retries. \<exists>e. outcome_of env (connections w + i) = WriteRaises e \<and> retryable e) \<longrightarrow>
        (\<exists>e w'. upsert_batch env records max_retries w = (Inl e, w') \<and>
           outcome_of env (connections w + (max_retries - 1)) = WriteRaises e \<and>
           connections w' = connections w + max_retries \<and> dbase w' = dbase w \<and>
           events w' = events w @
             concat (map (failure_events env max_retries (connections w) (draws w))
                         [0..<max_retries]))) \<and>
     (j < max_retries \<and>
      (\<forall>i < j. \<exists>e. outcome_of env2 (connections w2 + i) = WriteRaises e \<and> retryable e) \<and>
      outcome_of env2 (connections w2 + j) = Succeeds \<longrightarrow>
        (\<exists>w'. upsert_batch env2 records max_retries w2 = (Inr (length records), w') \<and>
           connections w' = connections w2 + j + 1 \<and>
           do_upsert (clock w') records (dbase w2) = Inr (dbase w', length records) \<and>
           events w' = events w2 @
             concat (map (failure_events env2 max_retries (connections w2) (draws w2)) [0..<j])
             @ [Connect, Commit, Close])) \<and>
     (Sleep t \<in> set (failure_events env3 max_retries k dr i) \<and>
      0 \<le> uniform01 env3 (dr + i) \<and> uniform01 env3 (dr + i) < 1 \<longrightarrow>
        2 ^ i \<le> t \<and> t < 2 ^ i + 1)"
proof -
  have "Sleep t \<in> set (failure_events env3 max_retries k dr i) \<Longrightarrow>
      t = 2 ^ i + uniform01 env3 (dr + i)"
    by (auto simp: failure_events_def split: outcome.splits if_splits)
  then show ?thesis
    using assms all_attempts_fail [of max_retries env w records]
      success_after_failures [of j max_retries env2 w2 records]
    by (auto simp: upsert_batch_def)
qed

theorem upsert_batch_retry_witness:
  "(\<exists>w'. upsert_batch stormy [incoming] 5 (start stored_db) = (Inl DeadlockDetected, w') \<and>
      connections w' = 5 \<and> dbase w' = stored_db) \<and>
   (\<exists>w'. upsert_batch flaky [incoming] 5 (start stored_db) = (Inr 1, w') \<and>
      connections w' = 3 \<and>
      events w' =
        [Connect, Rollback, Close, LogRetry LockNotAvailable 1 5, Sleep 1,
         Connect, Rollback, Close, LogRetry LockNotAvailable 2 5, Sleep 2,
         Connect, Commit, Close]) \<and>
   Sleep 2 \<in> set (failure_events flaky 5 0 0 1) \<and> (2 :: real) ^ 1 \<le> 2 \<and> (2 :: real) < 2 ^ 1 + 1"
proof -
  have upt: "[0..<2] = [0, 1 :: nat]"
    by (simp add: upt_rec)
  have h1: "\<forall>i < 5. \<exists>e. outcome_of stormy (connections (start stored_db) + i) = WriteRaises e \<and> retryable e"
    by (simp add: stormy_def retryable_def start_def)
  have h2: "(2 :: nat) < 5 \<and>
      (\<forall>i < 2. \<exists>e. outcome_of flaky (connections (start stored_db) + i) = WriteRaises e \<and> retryable e) \<and>
      outcome_of flaky (connections (start stored_db) + 2) = Succeeds"
    by (simp add: flaky_def retryable_def start_def)
  have ne: "[incoming] \<noteq> []" and pos: "(0 :: nat) < 5" by simp_all
  note t = upsert_batch_retry [OF ne pos, of stormy "start stored_db" 2 flaky "start stored_db"
      2 flaky 0 0 1]
  have sl: "Sleep 2 \<in> set (failure_events flaky 5 0 0 1)"
    by (simp add: failure_events_def flaky_def calm_def)
  have ji: "0 \<le> uniform01 flaky (0 + 1) \<and> uniform01 flaky (0 + 1) < 1"
    by (simp add: flaky_def calm_def)
  from t sl ji have third: "(2 :: real) ^ 1 \<le> 2 \<and> (2 :: real) < 2 ^ 1 + 1" by blast
  from t h1 obtain e w' where
    a: "upsert_batch stormy [incoming] 5 (start stored_db) = (Inl e, w')"
      "outcome_of stormy (connections (start stored_db) + (5 - 1)) = WriteRaises e"
      "connections w' = connections (start stored_db) + 5" "dbase w' = dbase (start stored_db)"
    by blast
  from a(2) have "e = DeadlockDetected" by (simp add: stormy_def start_def)
  with a have first: "\<exists>w'. upsert_batch stormy [incoming] 5 (start stored_db) = (Inl DeadlockDetected, w') \<and>
      connections w' = 5 \<and> dbase w' = stored_db"
    by (simp add: start_def)
  from t h2 obtain w'' where
    b: "upsert_batch flaky [incoming] 5 (start stored_db) = (Inr (length [incoming]), w'')"
      "connections w'' = connections (start stored_db) + 2 + 1"
      "events w'' = events (start stored_db) @
         concat (map (failure_events flaky 5 (connections (start stored_db)) (draws (start stored_db))) [0..<2])
         @ [Connect, Commit, Close]"
    by blast
  from b(3) have "events w'' =
        [Connect, Rollback, Close, LogRetry LockNotAvailable 1 5, Sleep 1,
         Connect, Rollback, Close, LogRetry LockNotAvailable 2 5, Sleep 2,
         Connect, Commit, Close]"
    by (simp add: upt failure_events_def flaky_def calm_def start_def)
  with b(1,2) have second: "\<exists>w'. upsert_batch flaky [incoming] 5 (start stored_db) = (Inr 1, w') \<and>
      connections w' = 3 \<and>
      events w' =
        [Connect, Rollback, Close, LogRetry LockNotAvailable 1 5, Sleep 1,
         Connect, Rollback, Close, LogRetry LockNotAvailable 2 5, Sleep 2,
         Connect, Commit, Close]"
    by (simp add: start_def)
  from first second sl third show ?thesis by blast
qed

subsection \<open>The count that \<^verbatim>\<open>upsert_batch\<close> returns\<close>

lemma card_serials_le:
  "card (serial_number ` set records) + (length (filter (\<lambda>r. serial_number r = s) records) - 1)
     \<le> length records"
proof -
  let ?same = "filter (\<lambda>r. serial_number r = s) records"
  let ?other = "filter (\<lambda>r. serial_number r \<noteq> s) records"
  have len: "length records = length ?same + length ?other"
    using sum_length_filter_compl [of "\<lambda>r. serial_number r = s" records] by simp
  have other: "card (serial_number ` set ?other) \<le> length ?other"
    by (metis card_image_le card_length le_trans List.finite_set)
  show ?thesis
  proof (cases "?same = []")
    case True
    then have "serial_number ` set records = serial_number ` set ?other"
      by (auto simp: filter_empty_conv)
    with other len True show ?thesis by simp
  next
    case False
    have "serial_number ` set records \<subseteq> insert s (serial_number ` set ?other)" by auto
    then have "card (serial_number ` set records) \<le> card (insert s (serial_number ` set ?other))"
      by (rule card_mono [rotated]) simp
    also have "\<dots> \<le> Suc (card (serial_number ` set ?other))"
      by (simp add: card_insert_le_m1 card_insert_if)
    finally have "card (serial_number ` set records) \<le> Suc (length ?other)"
      using other by simp
    moreover from False have "1 \<le> length ?same" by (simp add: Suc_le_eq)
    ultimately show ?thesis using len by linarith
  qed
qed

lemma card_serials_eq:
  assumes "s \<in> serial_number ` set records"
    and "distinct (map serial_number (filter (\<lambda>r. serial_number r \<noteq> s) records))"
  shows "card (serial_number ` set records) + (length (filter (\<lambda>r. serial_number r = s) records) - 1)
     = length records"
proof -
  let ?same = "filter (\<lambda>r. serial_number r = s) records"
  let ?other = "filter (\<lambda>r. serial_number r \<noteq> s) records"
  have len: "length records = length ?same + length ?other"
    using sum_length_filter_compl [of "\<lambda>r. serial_number r = s" records] by simp
  from assms(2) have other: "card (serial_number ` set ?other) = length ?other"
    using distinct_card [of "map serial_number ?other"] by simp
  from assms(1) have "serial_number ` set records = insert s (serial_number ` set ?other)" by auto
  moreover have "s \<notin> serial_number ` set ?other" by auto
  ultimately have "card (serial_number ` set records) = Suc (length ?other)"
    using other by simp
  moreover from assms(1) have "?same \<noteq> []"
    by (auto simp: filter_empty_conv)
  then have "1 \<le> length ?same" by (simp add: Suc_le_eq)
  ultimately show ?thesis using len by linarith
qed

lemma length_rows:
  "trademark_values records = Inr rows \<Longrightarrow> length rows = card (serial_number ` set records)"
proof -
  assume a: "trademark_values records = Inr rows"
  from trademark_values_keys [of records] a have
    "distinct (map fst rows)" "set (map fst rows) = serial_number ` set records" by auto
  then show ?thesis using distinct_card [of "map fst rows"] by simp
qed

text \<open>
  C10 as stated fails when a second serial number is repeated too: for two records of one
  serial number and two of another, the count is 4 and the rows are 2, a difference of 2
  where \<open>k - 1\<close> is 1.
\<close>

theorem two_repeated_serials_counterexample:
  "\<exists>w' rows.
     upsert_batch calm
       [mk_record ''78000001'' None None, mk_record ''78000001'' None None,
        mk_record ''78000002'' None None, mk_record ''78000002'' None None] 5 (start stored_db)
       = (Inr 4, w') \<and>
     trademark_values
       [mk_record ''78000001'' None None, mk_record ''78000001'' None None,
        mk_record ''78000002'' None None, mk_record ''78000002'' None None] = Inr rows \<and>
     length rows = 2 \<and>
     length (filter (\<lambda>r. serial_number r = ''78000001'')
       [mk_record ''78000001'' None None, mk_record ''78000001'' None None,
        mk_record ''78000002'' None None, mk_record ''78000002'' None None]) = 2 \<and>
     (4 :: nat) \<noteq> 2 + (2 - 1)"
proof -
  let ?batch = "[mk_record ''78000001'' None None, mk_record ''78000001'' None None,
        mk_record ''78000002'' None None, mk_record ''78000002'' None None]"
  have tv: "trademark_values ?batch =
      Inr [trademark_tuple (mk_record ''78000001'' None None),
           trademark_tuple (mk_record ''78000002'' None None)]"
    by (simp add: trademark_values_def dedup_eval mk_record_def)
  have ok: "outcome_of calm (connections (start stored_db)) = Succeeds"
    by (simp add: calm_def)
  from step_success [OF ok _ do_upsert_result [OF tv], of 0 5 None]
  have "\<exists>w'. upsert_batch calm ?batch 5 (start stored_db) = (Inr 4, w')"
    by (simp add: upsert_batch_def)
  with tv show ?thesis
    by (simp add: mk_record_def)
qed

text \<open>
  C10 (amended): when \<^verbatim>\<open>upsert_batch\<close> returns for a non-empty batch (with a positive
  \<^verbatim>\<open>max_retries\<close>), it returns the length of the batch before deduplication, while the
  statement has one row for each distinct serial number. For a serial number with \<open>k\<close>
  records in the batch, the count exceeds the number of rows by at least \<open>k - 1\<close>, and by
  exactly \<open>k - 1\<close> when no other serial number is repeated.
\<close>

theorem upsert_batch_count:
  assumes "upsert_batch env records max_retries w = (Inr n, w')"
    and "records \<noteq> []" and "0 < max_retries"
  shows "n = length records \<and>
     (\<exists>rows. trademark_values records = Inr rows \<and>
        length rows = card (serial_number ` set records) \<and>
        length rows + (length (filter (\<lambda>r. serial_number r = s) records) - 1) \<le> n \<and>
        (s \<in> serial_number ` set records \<and>
         distinct (map serial_number (filter (\<lambda>r. serial_number r \<noteq> s) records)) \<longrightarrow>
           length rows + (length (filter (\<lambda>r. serial_number r = s) records) - 1) = n))"
proof -
  from assms have n: "n = length records"
    by (simp add: upsert_batch_def upsert_attempts_count)
  from trademark_values_keys [of records] obtain rows where
    rows: "trademark_values records = Inr rows" by blast
  from length_rows [OF rows] have len: "length rows = card (serial_number ` set records)" .
  show ?thesis
    using n rows len card_serials_le [of records s] card_serials_eq [of s records] by simp
qed

theorem upsert_batch_count_witness:
  "\<exists>w' rows.
     upsert_batch calm
       [mk_record ''78000001'' None None, mk_record ''78000001'' None None,
        mk_record ''78000001'' None None, mk_record ''78000002'' None None] 5 (start stored_db)
       = (Inr 4, w') \<and>
     trademark_values
       [mk_record ''78000001'' None None, mk_record ''78000001'' None None,
        mk_record ''78000001'' None None, mk_record ''78000002'' None None] = Inr rows \<and>
     length rows + (3 - 1) = 4"
proof -
  let ?batch = "[mk_record ''78000001'' None None, mk_record ''78000001'' None None,
        mk_record ''78000001'' None None, mk_record ''78000002'' None None]"
  have tv: "trademark_values ?batch =
      Inr [trademark_tuple (mk_record ''78000001'' None None),
           trademark_tuple (mk_record ''78000002'' None None)]"
    by (simp add: trademark_values_def dedup_eval mk_record_def)
  have ok: "outcome_of calm (connections (start stored_db)) = Succeeds"
    by (simp add: calm_def)
  from step_success [OF ok _ do_upsert_result [OF tv], of 0 5 None]
  obtain w' where r: "upsert_batch calm ?batch 5 (start stored_db) = (Inr 4, w')"
    by (simp add: upsert_batch_def)
  from upsert_batch_count [OF r, of "''78000001''"] r show ?thesis
    by (auto simp: mk_record_def)
qed

subsection \<open>Classifications of a case file\<close>

lemma parse_date_parsed: "parse_date x = Inr (parsed_date x)"
  using parse_date_total [of x] by (auto simp: parsed_date_def)

lemma first_some_Cons: "first_some (p # xs) = (if p = None then first_some xs else p)"
  by (cases p) simp_all

lemma classification_loop_result:
  "classification_loop gs (intl, us, p, a, c) =
     Inr (intl @ concat (map (\<lambda>g. get_all_text g ''international-code'') gs),
          us @ concat (map (\<lambda>g. get_all_text g ''us-code'') gs),
          first_some (p # map (\<lambda>g. get_text g ''primary-code'') gs),
          first_some (a # map (\<lambda>g. parsed_date (get_text g ''first-use-anywhere-date'')) gs),
          first_some (c # map (\<lambda>g. parsed_date (get_text g ''first-use-in-commerce-date'')) gs))"
proof (induction gs arbitrary: intl us p a c)
  case Nil
  then show ?case by (cases p; cases a; cases c) simp_all
next
  case (Cons g gs)
  show ?case
    by (cases p; cases a; cases c)
       (simp_all add: Cons.IH Let_def and_then_def parse_date_parsed)
qed

lemma parse_classifications_result:
  "parse_classifications e =
     Inr (intl_codes_of e, us_codes_of e,
          first_some (map (\<lambda>g. get_text g ''primary-code'') (classification_groups e)),
          first_some (map (\<lambda>g. parsed_date (get_text g ''first-use-anywhere-date''))
                          (classification_groups e)),
          first_some (map (\<lambda>g. parsed_date (get_text g ''first-use-in-commerce-date''))
                          (classification_groups e)))"
  by (simp add: parse_classifications_def classification_loop_result intl_codes_of_def
      us_codes_of_def classification_groups_def first_some_Cons split: option.splits)

lemma assignments_all_Inr:
  "list_all (\<lambda>(k, m). \<exists>v. m = Inr v) xs \<Longrightarrow>
     assignments xs = Inr (map (\<lambda>(k, m). (k, projr m)) xs)"
  by (induction xs) (auto simp: and_then_def)

lemma item_Inr:
  "\<exists>v. text_item e t = Inr v" "\<exists>v. bool_item e t = Inr v" "\<exists>v. date_item e t = Inr v"
  by (simp_all add: text_item_def bool_item_def date_item_def parse_date_parsed and_then_def)

lemma header_items_Inr: "list_all (\<lambda>(k, m). \<exists>v. m = Inr v) (header_items h)"
  by (simp add: header_items_def item_Inr)

lemma rest_items_Inr:
  "list_all (\<lambda>(k, m). \<exists>v. m = Inr v)
     (classification_items cls @ [(''design_codes'', Inr dc)] @ owner_items os
      @ correspondent_items e @ ir_items e)"
  by (auto simp: classification_items_def owner_items_def correspondent_items_def ir_items_def
      item_Inr split: prod.splits list.splits option.splits)

lemma header_keys:
  "''international_classes'' \<notin> fst ` set (header_items h)"
  "''us_classes'' \<notin> fst ` set (header_items h)"
  "''primary_class'' \<notin> fst ` set (header_items h)"
  "''first_use_anywhere_date'' \<notin> fst ` set (header_items h)"
  "''first_use_in_commerce_date'' \<notin> fst ` set (header_items h)"
  by (simp_all add: header_items_def)

lemma map_of_filter_key:
  "k \<noteq> s \<Longrightarrow> map_of (filter (\<lambda>(k', v). k' \<noteq> s) xs) k = map_of xs k"
  by (induction xs) auto

lemma map_of_projr_skip:
  "k \<notin> fst ` set xs \<Longrightarrow>
     map_of (map (\<lambda>(k, m). (k, projr m)) xs @ ys) k = map_of ys k"
  by (induction xs) auto

lemma list_set_props: "distinct (list_set xs)" "set (list_set xs) = set xs"
  by (simp_all add: list_set_def)

lemma lookup_after_header:
  assumes "k \<noteq> ''status_date''" and "k \<noteq> ''registration_number''" and "k \<notin> fst ` set hdr"
  shows "map_of (filter (\<lambda>(k', v). k' \<noteq> ''status_date'')
            ((''registration_number'', reg) # map (\<lambda>(k, m). (k, projr m)) hdr @ rest)) k
         = map_of rest k"
proof -
  have "map_of (filter (\<lambda>(k', v). k' \<noteq> ''status_date'')
            ((''registration_number'', reg) # map (\<lambda>(k, m). (k, projr m)) hdr @ rest)) k
        = map_of ((''registration_number'', reg) # map (\<lambda>(k, m). (k, projr m)) hdr @ rest) k"
    by (rule map_of_filter_key [OF assms(1)])
  also have "\<dots> = map_of (map (\<lambda>(k, m). (k, projr m)) hdr @ rest) k"
    using assms(2) by simp
  also have "\<dots> = map_of rest k"
    by (rule map_of_projr_skip [OF assms(3)])
  finally show ?thesis .
qed

lemma classification_lookup:
  fixes reg :: pyval and hdr intl us p a c others
  assumes "''international_classes'' \<notin> fst ` set hdr" "''us_classes'' \<notin> fst ` set hdr"
      "''primary_class'' \<notin> fst ` set hdr" "''first_use_anywhere_date'' \<notin> fst ` set hdr"
      "''first_use_in_commerce_date'' \<notin> fst ` set hdr"
  defines "m \<equiv> map_of (filter (\<lambda>(k, v). k \<noteq> ''status_date'')
                     ((''registration_number'', reg)
                      # map (\<lambda>(k, m). (k, projr m)) hdr
                      @ map (\<lambda>(k, m). (k, projr m))
                          (classification_items (intl, us, p, a, c) @ others)))"
  shows "m ''international_classes'' = Some (codes_or_none intl)"
    "m ''us_classes'' = Some (codes_or_none us)"
    "m ''primary_class'' = Some (opt_str p)"
    "m ''first_use_anywhere_date'' = Some (opt_date a)"
    "m ''first_use_in_commerce_date'' = Some (opt_date c)"
  unfolding m_def
  by (subst lookup_after_header; simp add: assms(1-5) classification_items_def)+

lemma parse_case_file_total: "\<exists>x. parse_case_file e = Inr x"
proof -
  let ?hdr = "case elem_find e ''case-file-header'' of None \<Rightarrow> [] | Some header \<Rightarrow> header_items header"
  have hdr: "list_all (\<lambda>(k, m). \<exists>v. m = Inr v) ?hdr"
    by (simp add: header_items_Inr split: option.splits)
  show ?thesis
    by (simp only: parse_case_file_def parse_date_parsed
        and_then_def sum.case assignments_all_Inr [OF hdr] assignments_all_Inr [OF rest_items_Inr]
        parse_classifications_result Let_def split: option.split)
      simp
qed

lemma parse_case_file_attrs:
  assumes "parse_case_file e = Inr (Some r)"
  shows "attrs r ''international_classes'' = Some (codes_or_none (intl_codes_of e))"
    "attrs r ''us_classes'' = Some (codes_or_none (us_codes_of e))"
    "attrs r ''primary_class'' =
        Some (opt_str (first_some (map (\<lambda>g. get_text g ''primary-code'') (classification_groups e))))"
    "attrs r ''first_use_anywhere_date'' =
        Some (opt_date (first_some (map (\<lambda>g. parsed_date (get_text g ''first-use-anywhere-date''))
                                        (classification_groups e))))"
    "attrs r ''first_use_in_commerce_date'' =
        Some (opt_date (first_some (map (\<lambda>g. parsed_date (get_text g ''first-use-in-commerce-date''))
                                        (classification_groups e))))"
proof -
  from assms obtain serial where Some: "get_text e ''serial-number'' = Some serial"
    by (cases "get_text e ''serial-number''") (simp_all add: parse_case_file_def)
  from assms Some have False: "serial \<noteq> []"
    by (auto simp: parse_case_file_def)
  let ?hdr = "case elem_find e ''case-file-header'' of None \<Rightarrow> [] | Some header \<Rightarrow> header_items header"
  have hdr: "list_all (\<lambda>(k, m). \<exists>v. m = Inr v) ?hdr"
    by (simp add: header_items_Inr split: option.splits)
  have keys: "''international_classes'' \<notin> fst ` set ?hdr" "''us_classes'' \<notin> fst ` set ?hdr"
    "''primary_class'' \<notin> fst ` set ?hdr" "''first_use_anywhere_date'' \<notin> fst ` set ?hdr"
    "''first_use_in_commerce_date'' \<notin> fst ` set ?hdr"
    by (cases "elem_find e ''case-file-header''"; simp add: header_keys)+
  let ?items = "(''registration_number'', opt_str (registration_number e))
                    # map (\<lambda>(k, m). (k, projr m)) ?hdr
                    @ map (\<lambda>(k, m). (k, projr m))
                        (classification_items
                           (intl_codes_of e, us_codes_of e,
                            first_some (map (\<lambda>g. get_text g ''primary-code'') (classification_groups e)),
                            first_some (map (\<lambda>g. parsed_date (get_text g ''first-use-anywhere-date''))
                                            (classification_groups e)),
                            first_some (map (\<lambda>g. parsed_date (get_text g ''first-use-in-commerce-date''))
                                            (classification_groups e)))
                         @ ([(''design_codes'', Inr (parse_design_codes e))]
                         @ owner_items (parse_owners e) @ correspondent_items e @ ir_items e))"
  have eq: "parse_case_file e =
      Inr (Some \<lparr>serial_number = serial,
                 transaction_date = parsed_date (get_text e ''transaction-date''),
                 status_date = as_date (map_of ?items ''status_date''),
                 attrs = map_of (filter (\<lambda>(k, v). k \<noteq> ''status_date'') ?items),
                 owners = parse_owners e, statements = parse_statements e\<rparr>)"
    by (simp only: parse_case_file_def Some option.case False if_False parse_date_parsed
        and_then_def sum.case assignments_all_Inr [OF hdr] assignments_all_Inr [OF rest_items_Inr]
        parse_classifications_result Let_def)
  from assms [unfolded eq] have R:
    "\<lparr>serial_number = serial,
      transaction_date = parsed_date (get_text e ''transaction-date''),
      status_date = as_date (map_of ?items ''status_date''),
      attrs = map_of (filter (\<lambda>(k, v). k \<noteq> ''status_date'') ?items),
      owners = parse_owners e, statements = parse_statements e\<rparr> = r"
    by (simp only: sum.inject option.inject)
  have a: "attrs r = map_of (filter (\<lambda>(k, v). k \<noteq> ''status_date'') ?items)"
    by (subst R [symmetric]) (simp only: case_record.simps)
  note look = classification_lookup [OF keys, of "opt_str (registration_number e)"]
  show "attrs r ''international_classes'' = Some (codes_or_none (intl_codes_of e))"
    "attrs r ''us_classes'' = Some (codes_or_none (us_codes_of e))"
    "attrs r ''primary_class'' =
        Some (opt_str (first_some (map (\<lambda>g. get_text g ''primary-code'') (classification_groups e))))"
    "attrs r ''first_use_anywhere_date'' =
        Some (opt_date (first_some (map (\<lambda>g. parsed_date (get_text g ''first-use-anywhere-date''))
                                        (classification_groups e))))"
    "attrs r ''first_use_in_commerce_date'' =
        Some (opt_date (first_some (map (\<lambda>g. parsed_date (get_text g ''first-use-in-commerce-date''))
                                        (classification_groups e))))"
    unfolding a by (rule look)+
qed

text \<open>
  C9: \<^verbatim>\<open>parse_case_file\<close> raises for no element, and in the record of a case file the
  two class columns hold the codes of all classification groups with each code once
  (null when there is no code at all), and the primary class and the two dates of first
  use are the first values that are not null, in the order of the groups.
\<close>

theorem parse_case_file_classifications:
  "(\<exists>x. parse_case_file e = Inr x) \<and>
   (parse_case_file e = Inr (Some r) \<longrightarrow>
      (if intl_codes_of e = [] then attrs r ''international_classes'' = Some PNone
       else \<exists>xs. attrs r ''international_classes'' = Some (PStrs xs) \<and> distinct xs \<and>
              set xs = set (intl_codes_of e)) \<and>
      (if us_codes_of e = [] then attrs r ''us_classes'' = Some PNone
       else \<exists>xs. attrs r ''us_classes'' = Some (PStrs xs) \<and> distinct xs \<and>
              set xs = set (us_codes_of e)) \<and>
      attrs r ''primary_class'' =
        Some (opt_str (first_some (map (\<lambda>g. get_text g ''primary-code'') (classification_groups e)))) \<and>
      attrs r ''first_use_anywhere_date'' =
        Some (opt_date (first_some (map (\<lambda>g. parsed_date (get_text g ''first-use-anywhere-date''))
                                        (classification_groups e)))) \<and>
      attrs r ''first_use_in_commerce_date'' =
        Some (opt_date (first_some (map (\<lambda>g. parsed_date (get_text g ''first-use-in-commerce-date''))
                                        (classification_groups e)))))"
  using parse_case_file_total [of e] parse_case_file_attrs [of e r] list_set_props
  by (simp add: codes_or_none_def)

lemma parse_case_file_keyed:
  "has_serial e \<Longrightarrow> \<exists>r. parse_case_file e = Inr (Some r)"
  "\<not> has_serial e \<Longrightarrow> parse_case_file e = Inr None"
proof -
  let ?hdr = "case elem_find e ''case-file-header'' of None \<Rightarrow> [] | Some header \<Rightarrow> header_items header"
  have hdr: "list_all (\<lambda>(k, m). \<exists>v. m = Inr v) ?hdr"
    by (simp add: header_items_Inr split: option.splits)
  show "has_serial e \<Longrightarrow> \<exists>r. parse_case_file e = Inr (Some r)"
    by (simp only: parse_case_file_def parse_date_parsed has_serial_def
        and_then_def sum.case assignments_all_Inr [OF hdr] assignments_all_Inr [OF rest_items_Inr]
        parse_classifications_result Let_def split: option.splits)
      simp
  show "\<not> has_serial e \<Longrightarrow> parse_case_file e = Inr None"
    by (simp add: parse_case_file_def has_serial_def split: option.splits)
qed

lemma distinct_count_list: "distinct xs \<Longrightarrow> x \<in> set xs \<Longrightarrow> count_list xs x = 1"
  by (induction xs) auto

lemmas xml_eval = elem_find_def elem_findall_def get_text_def get_all_text_def strip_def
  is_space_def leaf_def

lemmas date_eval = parse_date_def strptime_Ymd_def regex_Ymd_def match_m_def match_d_def
  is_digit_def digit_val_def datetime_date_def days_in_month_def is_leap_def

theorem parse_case_file_classifications_witness:
  "\<exists>r xs. parse_case_file two_groups = Inr (Some r) \<and>
     attrs r ''international_classes'' = Some (PStrs xs) \<and>
     count_list xs ''025'' = 1 \<and> set xs = {''025'', ''035''} \<and>
     attrs r ''primary_class'' = Some (PStr ''035'') \<and>
     attrs r ''first_use_anywhere_date'' = Some (PDate (2020, 1, 1)) \<and>
     attrs r ''first_use_in_commerce_date'' = Some (PDate (2021, 3, 1))"
proof -
  have "has_serial two_groups"
    by (simp add: has_serial_def two_groups_def xml_eval)
  from parse_case_file_keyed(1) [OF this] obtain r where r: "parse_case_file two_groups = Inr (Some r)"
    by blast
  have groups: "classification_groups two_groups =
      [Element ''classification'' None
             [leaf ''international-code'' ''025'', leaf ''us-code'' ''022'',
              leaf ''first-use-anywhere-date'' ''20200101''],
       Element ''classification'' None
             [leaf ''international-code'' ''025'', leaf ''international-code'' ''035'',
              leaf ''primary-code'' ''035'', leaf ''first-use-anywhere-date'' ''20210101'',
              leaf ''first-use-in-commerce-date'' ''20210301'']]"
    by (simp add: classification_groups_def two_groups_def elem_find_def elem_findall_def leaf_def)
  have intl: "intl_codes_of two_groups = [''025'', ''025'', ''035'']"
    by (simp add: intl_codes_of_def groups) (simp add: xml_eval)
  have prim: "first_some (map (\<lambda>g. get_text g ''primary-code'') (classification_groups two_groups))
      = Some ''035''"
    by (simp add: groups) (simp add: xml_eval)
  have fua: "first_some (map (\<lambda>g. parsed_date (get_text g ''first-use-anywhere-date''))
      (classification_groups two_groups)) = Some (2020, 1, 1)"
    by (simp add: groups) (simp add: xml_eval parsed_date_def date_eval)
  have fuc: "first_some (map (\<lambda>g. parsed_date (get_text g ''first-use-in-commerce-date''))
      (classification_groups two_groups)) = Some (2021, 3, 1)"
    by (simp add: groups) (simp add: xml_eval parsed_date_def date_eval)
  from parse_case_file_classifications [of two_groups r] r intl prim fua fuc
  obtain xs where xs: "attrs r ''international_classes'' = Some (PStrs xs)" "distinct xs"
      "set xs = {''025'', ''035''}"
    and rest: "attrs r ''primary_class'' = Some (PStr ''035'')"
      "attrs r ''first_use_anywhere_date'' = Some (PDate (2020, 1, 1))"
      "attrs r ''first_use_in_commerce_date'' = Some (PDate (2021, 3, 1))"
    by (auto simp: opt_str_def opt_date_def)
  from xs(2,3) have "count_list xs ''025'' = 1"
    by (simp add: distinct_count_list)
  with r xs rest show ?thesis by auto
qed

subsection \<open>Files, workers and the coordinator\<close>














end
